theory Spec2Isabelle
  imports Complex_Main "HOL-Library.AList" "HOL-Library.Sublist"
begin

section \<open>Values of the configuration, errors and observable events\<close>

text \<open>
  \<^verbatim>\<open>yaml.safe_load\<close> returns nested Python values. The program only subscripts them
  with string keys, compares them with string literals and hands them to library calls,
  so four kinds are told apart: a mapping, a string, an integer, and everything else
  (\<open>YNull\<close>: None, and likewise sequences and floats, which fail every one of these
  uses in the same way).
\<close>

datatype yaml = YNull | YInt int | YStr string | YMap "(string \<times> yaml) list"

text \<open>An f-string is kept as its pieces, so that no rendering of a value to text is invented.\<close>

datatype fragment = Lit string | Val yaml

datatype error =
    KeyError string
  | TypeError
  | ValueError "fragment list"
  | FileNotFoundError "fragment list"
  | FileExistsError string
  | IsADirectoryError string
  | NotADirectoryError string
  | LibraryError string

text \<open>The six functions of \<^verbatim>\<open>main.py\<close>.\<close>

datatype fn_name =
    Fn_load_config
  | Fn_download_and_extract_videos
  | Fn_extract_frames_from_videos
  | Fn_auto_label_images
  | Fn_process_dataset
  | Fn_main

text \<open>
  What a run does that can be seen from outside, in order: entering and returning from a
  function of the program (a function that raises never logs \<open>Leave\<close>), text printed,
  the HTTP request, each image handed to \<^verbatim>\<open>cv2.imwrite\<close>, and the three calls into the
  labeling library.
\<close>

datatype event =
    Enter fn_name
  | Leave fn_name
  | Print "fragment list"
  | HttpGet yaml
  | ImWrite string
  | NewCaptionOntology yaml
  | NewGroundedSAM yaml
  | Label yaml yaml yaml

section \<open>The file system and the outside world\<close>

text \<open>
  A file system maps path strings to nodes; the order of the association list is the
  order in which a directory listing enumerates. Paths are compared as strings: two
  spellings of one directory are two paths here.
\<close>

datatype node = Dir | File string

type_synonym filesystem = "(string \<times> node) list"

record state =
  disk :: filesystem
  trace :: "event list"

datatype os_call = OsMakedirs string | OsOpenRead string | OsOpenWrite string | OsImwrite string

text \<open>
  Everything the program cannot decide itself is a field of the world: the YAML parser,
  the HTTP server, the archive and video decoders, the image encoder, the labeling
  library, failures of the operating system that the file-system model does not explain
  (permissions, a full disk), and the corners of library calls that are left open
  (\<open>os.path.exists\<close> of an integer, the exception \<open>str.format\<close> raises for a
  pattern it rejects, and what it makes of a pattern the program never builds).
\<close>

record world =
  yaml_safe_load :: "string \<Rightarrow> error + yaml"
  requests_get :: "yaml \<Rightarrow> error + string"
  zip_entries :: "string \<Rightarrow> error + (string \<times> string option) list"
  cv2_decode :: "string \<Rightarrow> string list option"
  png_encode :: "string \<Rightarrow> string"
  os_refuses :: "os_call \<Rightarrow> filesystem \<Rightarrow> error option"
  stat_fd :: "int \<Rightarrow> error + bool"
  str_format_error :: "string \<Rightarrow> nat \<Rightarrow> error"
  str_format_other :: "string \<Rightarrow> nat \<Rightarrow> error + string"
  caption_ontology_error :: "yaml \<Rightarrow> error option"
  grounded_sam_init :: "yaml \<Rightarrow> filesystem \<Rightarrow> error option \<times> filesystem"
  grounded_sam_label :: "yaml \<Rightarrow> yaml \<Rightarrow> yaml \<Rightarrow> filesystem \<Rightarrow> error option \<times> filesystem"

section \<open>Programs: state passing with exceptions\<close>

text \<open>
  A statement of the program takes the state and returns the state it leaves, with
  either the exception it raised or its value. The state is returned in both cases: what
  was written before an exception stays written.
\<close>

type_synonym 'a prog = "state \<Rightarrow> (error + 'a) \<times> state"

definition succeed :: "'a \<Rightarrow> 'a prog" where
  "succeed x s = (Inr x, s)"

definition raise :: "error \<Rightarrow> 'a prog" where
  "raise e s = (Inl e, s)"

definition pure_result :: "error + 'a \<Rightarrow> 'a prog" where
  "pure_result r s = (r, s)"

definition andthen :: "'a prog \<Rightarrow> ('a \<Rightarrow> 'b prog) \<Rightarrow> 'b prog" where
  "andthen m f s = (case m s of (Inl e, s1) \<Rightarrow> (Inl e, s1) | (Inr x, s1) \<Rightarrow> f x s1)"

definition emit :: "event \<Rightarrow> unit prog" where
  "emit ev s = (Inr (), s\<lparr>trace := trace s @ [ev]\<rparr>)"

definition py_print :: "fragment list \<Rightarrow> unit prog" where
  "py_print msg = emit (Print msg)"

definition in_function :: "fn_name \<Rightarrow> 'a prog \<Rightarrow> 'a prog" where
  "in_function f body =
     andthen (emit (Enter f)) (\<lambda>_.
     andthen body (\<lambda>x.
     andthen (emit (Leave f)) (\<lambda>_.
     succeed x)))"

text \<open>A \<^verbatim>\<open>for\<close> loop over a list; the second form threads a value through the iterations.\<close>

primrec for_each :: "('a \<Rightarrow> unit prog) \<Rightarrow> 'a list \<Rightarrow> unit prog" where
  "for_each body [] = succeed ()"
| "for_each body (x # xs) = andthen (body x) (\<lambda>_. for_each body xs)"

primrec for_each_with :: "('b \<Rightarrow> 'a \<Rightarrow> 'b prog) \<Rightarrow> 'a list \<Rightarrow> 'b \<Rightarrow> 'b prog" where
  "for_each_with body [] = (\<lambda>acc. succeed acc)"
| "for_each_with body (x # xs) = (\<lambda>acc. andthen (body acc x) (for_each_with body xs))"

section \<open>Python and library operations\<close>

subsection \<open>Subscripting\<close>

definition py_getitem :: "yaml \<Rightarrow> string \<Rightarrow> error + yaml" where
  "py_getitem v k =
     (case v of
        YMap m \<Rightarrow> (case map_of m k of None \<Rightarrow> Inl (KeyError k) | Some x \<Rightarrow> Inr x)
      | _ \<Rightarrow> Inl TypeError)"

text \<open>\<open>v[k1][k2]...\<close>, evaluated left to right.\<close>

fun subscripts :: "yaml \<Rightarrow> string list \<Rightarrow> error + yaml" where
  "subscripts v [] = Inr v"
| "subscripts v (k # ks) =
     (case py_getitem v k of Inl e \<Rightarrow> Inl e | Inr x \<Rightarrow> subscripts x ks)"

subsection \<open>Paths (\<open>posixpath\<close>)\<close>

definition os_path_join :: "string \<Rightarrow> string \<Rightarrow> string" where
  "os_path_join a b =
     (if b \<noteq> [] \<and> hd b = CHR ''/'' then b
      else if a = [] \<or> last a = CHR ''/'' then a @ b
      else a @ ''/'' @ b)"

definition os_path_basename :: "string \<Rightarrow> string" where
  "os_path_basename p = rev (takeWhile (\<lambda>c. c \<noteq> CHR ''/'') (rev p))"

text \<open>
  \<open>os.path.splitext\<close>: the extension starts at the last dot of the last component,
  unless that component has only dots before it.
\<close>

definition os_path_splitext :: "string \<Rightarrow> string \<times> string" where
  "os_path_splitext p =
     (let name = os_path_basename p;
          ext = rev (takeWhile (\<lambda>c. c \<noteq> CHR ''.'') (rev name));
          stem = take (length name - length ext - 1) name
      in if CHR ''.'' \<in> set name \<and> (\<exists>c \<in> set stem. c \<noteq> CHR ''.'')
         then (take (length p - length ext - 1) p, CHR ''.'' # ext)
         else (p, []))"

definition os_path_dirname :: "string \<Rightarrow> string" where
  "os_path_dirname p =
     (let head = take (length p - length (os_path_basename p)) p
      in if head \<noteq> [] \<and> (\<exists>c \<in> set head. c \<noteq> CHR ''/'')
         then rev (dropWhile (\<lambda>c. c = CHR ''/'') (rev head))
         else head)"

text \<open>The proper prefixes of a path that end just before a separator: its ancestors.\<close>

definition path_ancestors :: "string \<Rightarrow> string list" where
  "path_ancestors p = [take i p. i \<leftarrow> [1..<length p], p ! i = CHR ''/'']"

subsection \<open>The file system (\<open>os\<close>, \<open>open\<close>)\<close>

definition is_dir :: "filesystem \<Rightarrow> string \<Rightarrow> bool" where
  "is_dir fs p = (map_of fs p = Some Dir)"

definition is_file :: "filesystem \<Rightarrow> string \<Rightarrow> bool" where
  "is_file fs p = (case map_of fs p of Some (File c) \<Rightarrow> True | _ \<Rightarrow> False)"

definition path_exists :: "filesystem \<Rightarrow> string \<Rightarrow> bool" where
  "path_exists fs p = (map_of fs p \<noteq> None)"

definition modify_disk :: "(filesystem \<Rightarrow> filesystem) \<Rightarrow> unit prog" where
  "modify_disk f s = (Inr (), s\<lparr>disk := f (disk s)\<rparr>)"

text \<open>
  \<open>os.path.exists\<close> answers for a string, asks \<open>os.stat\<close> about the descriptor for an
  integer, and raises TypeError for anything else.
\<close>

definition os_path_exists :: "world \<Rightarrow> yaml \<Rightarrow> bool prog" where
  "os_path_exists w v s =
     (case v of
        YStr p \<Rightarrow> (Inr (path_exists (disk s) p), s)
      | YInt n \<Rightarrow> (stat_fd w n, s)
      | _ \<Rightarrow> (Inl TypeError, s))"

text \<open>Creating one directory where nothing is yet; an existing directory is left alone.\<close>

definition mkdir_missing :: "string \<Rightarrow> filesystem \<Rightarrow> filesystem" where
  "mkdir_missing p fs = (if path_exists fs p then fs else AList.update p Dir fs)"

text \<open>A path without the separators it ends in.\<close>

definition strip_separators :: "string \<Rightarrow> string" where
  "strip_separators p = rev (dropWhile (\<lambda>c. c = CHR ''/'') (rev p))"

text \<open>
  \<open>os.makedirs(p)\<close> creates \<open>p\<close> and its missing ancestors. With \<open>exist_ok=True\<close> an
  existing directory is accepted; an existing file at \<open>p\<close> (also when \<open>p\<close> is written
  with a separator at its end) or at an ancestor is an error in both modes.
\<close>

definition os_makedirs :: "world \<Rightarrow> bool \<Rightarrow> yaml \<Rightarrow> unit prog" where
  "os_makedirs w exist_ok v s =
     (case v of
        YStr p \<Rightarrow>
          (case os_refuses w (OsMakedirs p) (disk s) of
             Some e \<Rightarrow> (Inl e, s)
           | None \<Rightarrow>
               if p = [] then (Inl (FileNotFoundError [Lit p]), s)
               else if is_file (disk s) p \<or> is_file (disk s) (strip_separators p)
                 then (Inl (FileExistsError p), s)
               else if is_dir (disk s) p \<and> \<not> exist_ok then (Inl (FileExistsError p), s)
               else if \<exists>a \<in> set (path_ancestors p). is_file (disk s) a
                 then (Inl (NotADirectoryError p), s)
               else (Inr (), s\<lparr>disk := fold mkdir_missing (path_ancestors p @ [p]) (disk s)\<rparr>))
      | _ \<Rightarrow> (Inl TypeError, s))"

text \<open>
  \<open>open(p, 'r')\<close> or \<open>'rb'\<close> followed by reading everything. A path that leads
  through a regular file is refused as such.
\<close>

definition read_file :: "world \<Rightarrow> string \<Rightarrow> string prog" where
  "read_file w p s =
     (case os_refuses w (OsOpenRead p) (disk s) of
        Some e \<Rightarrow> (Inl e, s)
      | None \<Rightarrow>
          (case map_of (disk s) p of
             None \<Rightarrow>
               if \<exists>a \<in> set (path_ancestors p). is_file (disk s) a
               then (Inl (NotADirectoryError p), s)
               else (Inl (FileNotFoundError [Lit p]), s)
           | Some Dir \<Rightarrow> (Inl (IsADirectoryError p), s)
           | Some (File c) \<Rightarrow> (Inr c, s)))"

text \<open>
  \<open>open(p, 'wb')\<close> followed by one write: the directory of \<open>p\<close> has to exist (the
  empty directory name is the working directory), \<open>p\<close> must not be a directory, and
  no regular file may stand above it.
\<close>

definition write_file :: "world \<Rightarrow> string \<Rightarrow> string \<Rightarrow> unit prog" where
  "write_file w p c s =
     (case os_refuses w (OsOpenWrite p) (disk s) of
        Some e \<Rightarrow> (Inl e, s)
      | None \<Rightarrow>
          if is_dir (disk s) p then (Inl (IsADirectoryError p), s)
          else if \<exists>a \<in> set (path_ancestors p). is_file (disk s) a
            then (Inl (NotADirectoryError p), s)
          else if os_path_dirname p \<noteq> [] \<and> \<not> is_dir (disk s) (os_path_dirname p)
            then (Inl (FileNotFoundError [Lit p]), s)
          else (Inr (), s\<lparr>disk := AList.update p (File c) (disk s)\<rparr>))"

subsection \<open>\<open>requests\<close> and \<open>zipfile\<close>\<close>

definition http_get :: "world \<Rightarrow> yaml \<Rightarrow> string prog" where
  "http_get w url = andthen (emit (HttpGet url)) (\<lambda>_. pure_result (requests_get w url))"

text \<open>
  \<open>ZipFile.extractall\<close> walks the members in archive order. The world gives each
  member by the relative path it is extracted to and its content (\<open>None\<close> for a
  directory member). The directory above the target is created when missing; then a
  directory member is made unless it is there already, and a file member is written.
\<close>

definition ensure_upperdirs :: "world \<Rightarrow> string \<Rightarrow> unit prog" where
  "ensure_upperdirs w target s =
     (let upperdirs = os_path_dirname target
      in if upperdirs \<noteq> [] \<and> \<not> path_exists (disk s) upperdirs
         then os_makedirs w False (YStr upperdirs) s
         else (Inr (), s))"

definition extract_member :: "world \<Rightarrow> string \<Rightarrow> string \<times> string option \<Rightarrow> unit prog" where
  "extract_member w dir member =
     (let target = os_path_join dir (fst member)
      in andthen (ensure_upperdirs w target) (\<lambda>_.
           case snd member of
             None \<Rightarrow> (\<lambda>s. if is_dir (disk s) target then (Inr (), s)
                            else os_makedirs w False (YStr target) s)
           | Some c \<Rightarrow> write_file w target c))"

definition zip_extractall :: "world \<Rightarrow> string \<Rightarrow> yaml \<Rightarrow> unit prog" where
  "zip_extractall w zip_path path =
     andthen (read_file w zip_path) (\<lambda>archive.
     andthen (pure_result (zip_entries w archive)) (\<lambda>members.
     case path of
       YStr dir \<Rightarrow> for_each (extract_member w dir) members
     | _ \<Rightarrow> raise TypeError))"

subsection \<open>\<open>supervision\<close>: listing videos, reading frames, writing images\<close>

definition ends_with :: "string \<Rightarrow> string \<Rightarrow> bool" where
  "ends_with sfx p = (length sfx \<le> length p \<and> drop (length p - length sfx) p = sfx)"

text \<open>The name of \<open>p\<close> inside directory \<open>d\<close>, when \<open>p\<close> is an entry of \<open>d\<close> itself.\<close>

definition child_name :: "string \<Rightarrow> string \<Rightarrow> string option" where
  "child_name d p =
     (let pre = os_path_join d [];
          name = drop (length pre) p
      in if take (length pre) p = pre \<and> name \<noteq> [] \<and> CHR ''/'' \<notin> set name
         then Some name else None)"

text \<open>
  \<open>sv.list_files_with_extensions\<close>: for each extension in turn, the entries of the
  directory whose names end in a dot and the extension, in enumeration order. A missing
  directory has no entries.
\<close>

definition sv_list_files_with_extensions :: "yaml \<Rightarrow> string list \<Rightarrow> string list prog" where
  "sv_list_files_with_extensions directory extensions s =
     (case directory of
        YStr d \<Rightarrow>
          (Inr (concat (map (\<lambda>ext.
                  filter (\<lambda>p. case child_name d p of
                                 None \<Rightarrow> False
                               | Some name \<Rightarrow> ends_with (CHR ''.'' # ext) name)
                         (map fst (disk s)))
                extensions)), s)
      | _ \<Rightarrow> (Inl TypeError, s))"

text \<open>
  Modelled from the spec: \<open>sv.get_video_frames_generator\<close> (library \<open>supervision\<close>,
  not under src/), "a lazy, finite, non-restartable sequence of decoded frames sampled
  every stride frames from the source video": the frame at position 0, then the frame
  \<open>stride\<close> positions further, and so on: after a frame is yielded, \<open>stride - 1\<close>
  frames are skipped.
\<close>

fun frames_every :: "nat \<Rightarrow> 'a list \<Rightarrow> 'a list" where
  "frames_every skip [] = []"
| "frames_every skip (x # xs) = x # frames_every skip (drop skip xs)"

text \<open>
  Modelled from the spec: the frames one video yields, and the exception that ends the
  sequence early if there is one. The spec covers a positive integer stride. For any
  other integer the skip count \<open>stride - 1\<close> is not positive and no frame is skipped; for
  a stride that is not an integer the subtraction raises TypeError once the first frame
  has been yielded. A path that is no readable video raises before any frame.
\<close>

definition sv_get_video_frames_generator ::
    "world \<Rightarrow> string \<Rightarrow> yaml \<Rightarrow> (string list \<times> error option) prog" where
  "sv_get_video_frames_generator w source_path stride s =
     (case map_of (disk s) source_path of
        Some (File c) \<Rightarrow>
          (case cv2_decode w c of
             Some frames \<Rightarrow>
               (case stride of
                  YInt k \<Rightarrow> (Inr (frames_every (nat (k - 1)) frames, None), s)
                | _ \<Rightarrow> (Inr (take 1 frames, if frames = [] then None else Some TypeError), s))
           | None \<Rightarrow> (Inl (LibraryError ''Could not open video''), s))
      | _ \<Rightarrow> (Inl (LibraryError ''Could not open video''), s))"

text \<open>Python's \<open>format(n, '05d')\<close> for \<open>n \<ge> 0\<close>: decimal, zero-padded on the left to width 5 at least.\<close>

definition digit_char :: "nat \<Rightarrow> char" where
  "digit_char d = ''0123456789'' ! d"

fun decimal :: "nat \<Rightarrow> string" where
  "decimal n = (if n < 10 then [digit_char n] else decimal (n div 10) @ [digit_char (n mod 10)])"

definition format_05d :: "nat \<Rightarrow> string" where
  "format_05d n = replicate (5 - length (decimal n)) (CHR ''0'') @ decimal n"

definition brace_free :: "string \<Rightarrow> bool" where
  "brace_free t = (CHR ''{'' \<notin> set t \<and> CHR ''}'' \<notin> set t)"

text \<open>
  Literal text in a format string: \<open>{{\<close> and \<open>}}\<close> stand for one brace each, every
  other character for itself. The result is \<open>None\<close> when the text has a brace that is
  not doubled: there a replacement field opens, or a closing brace stands on its own.
\<close>

fun format_literal :: "string \<Rightarrow> string option" where
  "format_literal [] = Some []"
| "format_literal [c] = (if c = CHR ''{'' \<or> c = CHR ''}'' then None else Some [c])"
| "format_literal (c # c' # cs) =
     (if c = CHR ''{'' \<or> c = CHR ''}''
      then (if c' = c then map_option (Cons c) (format_literal cs) else None)
      else map_option (Cons c) (format_literal (c' # cs)))"

text \<open>
  \<open>pattern.format(n)\<close> with the one argument \<open>n \<ge> 0\<close>, for the patterns the extractor
  builds: some text, then \<open>-{:05d}.png\<close>. The field \<open>{:05d}\<close> takes the argument. When
  the text before it is literal, the result is that text with its doubled braces written
  once, the separator, the number and the extension. Otherwise the call raises: a field
  before the last one either uses up the only argument (IndexError at the last field),
  names an argument that is not there (KeyError), or numbers its argument itself, which
  cannot be mixed with the automatic numbering of the last field (ValueError); a closing
  brace on its own and a field that is not closed are ValueErrors. Which exception it is
  the world says, as it says what \<open>str.format\<close> makes of a pattern of another shape.
\<close>

definition str_format :: "world \<Rightarrow> string \<Rightarrow> nat \<Rightarrow> error + string" where
  "str_format w pattern n =
     (let k = length pattern - length ''-{:05d}.png''
      in if length ''-{:05d}.png'' \<le> length pattern \<and> drop k pattern = ''-{:05d}.png''
         then (case format_literal (take k pattern) of
                 Some written \<Rightarrow> Inr (written @ ''-'' @ format_05d n @ ''.png'')
               | None \<Rightarrow> Inl (str_format_error w pattern n))
         else str_format_other w pattern n)"

text \<open>
  \<open>cv2.imwrite\<close> reports a failed write by its return value, which the caller drops:
  nothing is raised, and nothing is written where the path is a directory, its directory
  is missing or the system refuses.
\<close>

definition cv2_imwrite :: "world \<Rightarrow> string \<Rightarrow> string \<Rightarrow> unit prog" where
  "cv2_imwrite w p img =
     andthen (emit (ImWrite p)) (\<lambda>_ s.
       if os_refuses w (OsImwrite p) (disk s) = None \<and> \<not> is_dir (disk s) p
          \<and> (os_path_dirname p = [] \<or> is_dir (disk s) (os_path_dirname p))
       then (Inr (), s\<lparr>disk := AList.update p (File (png_encode w img)) (disk s)\<rparr>)
       else (Inr (), s))"

text \<open>
  Modelled from the spec: \<open>sv.ImageSink\<close> (library \<open>supervision\<close>, not under src/), "a
  scoped image-writing resource bound to the output directory and a per-video naming
  pattern" that persists each frame "as a numbered image file following the naming
  pattern", numbered from 0 in steps of 1. Entering creates the output directory when
  nothing exists at its path.
\<close>

record image_sink =
  target_dir_path :: yaml
  image_name_pattern :: string
  image_count :: nat

definition ImageSink_enter :: "world \<Rightarrow> yaml \<Rightarrow> string \<Rightarrow> image_sink prog" where
  "ImageSink_enter w target pattern =
     andthen (os_path_exists w target) (\<lambda>there.
     andthen (if there then succeed () else os_makedirs w False target) (\<lambda>_.
     succeed \<lparr>target_dir_path = target, image_name_pattern = pattern, image_count = 0\<rparr>))"

definition ImageSink_save_image :: "world \<Rightarrow> image_sink \<Rightarrow> string \<Rightarrow> image_sink prog" where
  "ImageSink_save_image w sink img =
     andthen (pure_result (str_format w (image_name_pattern sink) (image_count sink))) (\<lambda>image_name.
     andthen (pure_result (case target_dir_path sink of
                             YStr d \<Rightarrow> Inr (os_path_join d image_name)
                           | _ \<Rightarrow> Inl TypeError)) (\<lambda>image_path.
     andthen (cv2_imwrite w image_path img) (\<lambda>_.
     succeed (sink\<lparr>image_count := image_count sink + 1\<rparr>))))"

subsection \<open>\<open>autodistill\<close>: the labeling oracle\<close>

datatype caption_ontology = CaptionOntology yaml

datatype grounded_sam = GroundedSAM caption_ontology

definition CaptionOntology_init :: "world \<Rightarrow> yaml \<Rightarrow> caption_ontology prog" where
  "CaptionOntology_init w ontology =
     andthen (emit (NewCaptionOntology ontology)) (\<lambda>_.
     case caption_ontology_error w ontology of
       Some e \<Rightarrow> raise e
     | None \<Rightarrow> succeed (CaptionOntology ontology))"

definition oracle_step :: "(filesystem \<Rightarrow> error option \<times> filesystem) \<Rightarrow> unit prog" where
  "oracle_step f s =
     (case f (disk s) of
        (Some e, fs) \<Rightarrow> (Inl e, s\<lparr>disk := fs\<rparr>)
      | (None, fs) \<Rightarrow> (Inr (), s\<lparr>disk := fs\<rparr>))"

definition GroundedSAM_init :: "world \<Rightarrow> caption_ontology \<Rightarrow> grounded_sam prog" where
  "GroundedSAM_init w ontology =
     (case ontology of CaptionOntology m \<Rightarrow>
        andthen (emit (NewGroundedSAM m)) (\<lambda>_.
        andthen (oracle_step (grounded_sam_init w m)) (\<lambda>_.
        succeed (GroundedSAM ontology))))"

definition GroundedSAM_label :: "world \<Rightarrow> grounded_sam \<Rightarrow> yaml \<Rightarrow> yaml \<Rightarrow> unit prog" where
  "GroundedSAM_label w base_model input_folder output_folder =
     (case base_model of GroundedSAM (CaptionOntology m) \<Rightarrow>
        andthen (emit (Label m input_folder output_folder)) (\<lambda>_.
        oracle_step (grounded_sam_label w m input_folder output_folder)))"

section \<open>The program (\<^verbatim>\<open>main.py\<close>)\<close>

definition load_config :: "world \<Rightarrow> string \<Rightarrow> yaml prog" where
  "load_config w config_path =
     in_function Fn_load_config (
       andthen (read_file w config_path) (\<lambda>contents.
       pure_result (yaml_safe_load w contents)))"

definition download_and_extract_videos :: "world \<Rightarrow> yaml \<Rightarrow> yaml \<Rightarrow> unit prog" where
  "download_and_extract_videos w video_url video_dir =
     in_function Fn_download_and_extract_videos (
       andthen (pure_result (case video_dir of
                               YStr d \<Rightarrow> Inr (os_path_join d ''videos.zip'')
                             | _ \<Rightarrow> Inl TypeError)) (\<lambda>video_zip_path.
       andthen (py_print [Lit ''Downloading videos from '', Val video_url, Lit ''...'']) (\<lambda>_.
       andthen (http_get w video_url) (\<lambda>response_content.
       andthen (write_file w video_zip_path response_content) (\<lambda>_.
       andthen (py_print [Lit ''Extracting videos to '', Val video_dir, Lit ''...'']) (\<lambda>_.
       andthen (zip_extractall w video_zip_path video_dir) (\<lambda>_.
       py_print [Lit ''Video download and extraction complete.''])))))))"

text \<open>
  The body of the loop over the videos: one video, one sink, one file per frame. The
  progress bar that \<open>tqdm\<close> draws around the loop goes to the standard error stream
  and is left out of the trace.
\<close>

definition extract_frames_from_video :: "world \<Rightarrow> yaml \<Rightarrow> yaml \<Rightarrow> string \<Rightarrow> unit prog" where
  "extract_frames_from_video w image_dir frame_stride video_path =
     (let video_name = fst (os_path_splitext (os_path_basename video_path));
          image_name_pattern = video_name @ ''-{:05d}.png''
      in andthen (ImageSink_enter w image_dir image_name_pattern) (\<lambda>sink.
         andthen (sv_get_video_frames_generator w video_path frame_stride) (\<lambda>yielded.
         andthen (for_each_with (ImageSink_save_image w) (fst yielded) sink) (\<lambda>_.
         case snd yielded of None \<Rightarrow> succeed () | Some e \<Rightarrow> raise e))))"

definition extract_frames_from_videos :: "world \<Rightarrow> yaml \<Rightarrow> yaml \<Rightarrow> yaml \<Rightarrow> unit prog" where
  "extract_frames_from_videos w video_dir image_dir frame_stride =
     in_function Fn_extract_frames_from_videos (
       andthen (sv_list_files_with_extensions video_dir [''mov'', ''mp4'']) (\<lambda>video_paths.
       for_each (extract_frames_from_video w image_dir frame_stride) video_paths))"

definition auto_label_images :: "world \<Rightarrow> yaml \<Rightarrow> yaml \<Rightarrow> yaml \<Rightarrow> unit prog" where
  "auto_label_images w image_dir dataset_dir ontology_mapping =
     in_function Fn_auto_label_images (
       andthen (CaptionOntology_init w ontology_mapping) (\<lambda>ontology.
       andthen (GroundedSAM_init w ontology) (\<lambda>base_model.
       andthen (py_print [Lit ''Starting auto-labeling of images...'']) (\<lambda>_.
       GroundedSAM_label w base_model image_dir dataset_dir))))"

definition process_dataset :: "world \<Rightarrow> yaml \<Rightarrow> yaml \<Rightarrow> unit prog" where
  "process_dataset w input_type config =
     in_function Fn_process_dataset (
       andthen (pure_result (subscripts config [''data'', ''dataset_dir''])) (\<lambda>dataset_dir.
       if input_type = YStr ''video'' then
         andthen (py_print [Lit ''Dataset type is 'video'. Processing video dataset...'']) (\<lambda>_.
         andthen (pure_result (subscripts config [''data'', ''video''])) (\<lambda>video_config.
         andthen (pure_result (py_getitem video_config ''video_url'')) (\<lambda>video_url.
         andthen (pure_result (py_getitem video_config ''video_dir'')) (\<lambda>video_dir.
         andthen (pure_result (py_getitem video_config ''frame_stride'')) (\<lambda>frame_stride.
         andthen (os_makedirs w True video_dir) (\<lambda>_.
         andthen (os_makedirs w True dataset_dir) (\<lambda>_.
         andthen (download_and_extract_videos w video_url video_dir) (\<lambda>_.
         extract_frames_from_videos w video_dir dataset_dir frame_stride))))))))
       else if input_type = YStr ''image'' then
         andthen (py_print [Lit ''Dataset type is 'image'. Processing existing image dataset...'']) (\<lambda>_.
         andthen (pure_result (subscripts config [''data'', ''image'', ''image_dir''])) (\<lambda>image_dir.
         andthen (os_path_exists w image_dir) (\<lambda>there.
         if \<not> there
         then raise (FileNotFoundError
                [Lit ''Image directory '', Val image_dir, Lit '' does not exist.''])
         else os_makedirs w True dataset_dir)))
       else raise (ValueError [Lit ''Invalid input type. Must be 'video' or 'image'.''])))"

definition main :: "world \<Rightarrow> string \<Rightarrow> unit prog" where
  "main w config_path =
     in_function Fn_main (
       andthen (load_config w config_path) (\<lambda>config.
       andthen (pure_result (subscripts config [''data'', ''input_type''])) (\<lambda>input_type.
       andthen (process_dataset w input_type config) (\<lambda>_.
       andthen (pure_result (py_getitem config ''ontology'')) (\<lambda>ontology_mapping.
       andthen (pure_result (subscripts config [''data'', ''image'', ''image_dir''])) (\<lambda>image_dir.
       andthen (pure_result (subscripts config [''data'', ''dataset_dir''])) (\<lambda>dataset_dir.
       andthen (auto_label_images w image_dir dataset_dir ontology_mapping) (\<lambda>_.
       py_print [Lit ''Dataset construction complete.'']))))))))"

text \<open>
  The script: \<open>argparse\<close> with the single flag \<open>--config\<close>, given here by its value
  when the command line has it, then \<open>main\<close>. The exit status is 0 when \<open>main\<close>
  returns and 1 when an exception leaves it.
\<close>

definition parse_args :: "string option \<Rightarrow> string" where
  "parse_args config_flag = (case config_flag of None \<Rightarrow> ''config.yaml'' | Some p \<Rightarrow> p)"

definition script :: "world \<Rightarrow> string option \<Rightarrow> state \<Rightarrow> nat \<times> state" where
  "script w config_flag s =
     (case main w (parse_args config_flag) s of
        (Inl e, s1) \<Rightarrow> (1, s1)
      | (Inr _, s1) \<Rightarrow> (0, s1))"

section \<open>Observing a run\<close>

text \<open>The events a run added to the trace it started from.\<close>

definition new_events :: "state \<Rightarrow> state \<Rightarrow> event list" where
  "new_events s s1 = drop (length (trace s)) (trace s1)"

text \<open>
  A directory stays a directory and a file stays a file (its content may change): what
  every step of routing, acquisition and extraction does to the entries that are there.
\<close>

definition entries_kept :: "state \<Rightarrow> state \<Rightarrow> bool" where
  "entries_kept s s1 =
     (\<forall>p. (is_dir (disk s) p \<longrightarrow> is_dir (disk s1) p)
        \<and> (is_file (disk s) p \<longrightarrow> is_file (disk s1) p))"

text \<open>A regular file stands at the path or above it, so that no directory can be made there.\<close>

definition blocked_by_file :: "filesystem \<Rightarrow> string \<Rightarrow> bool" where
  "blocked_by_file fs p =
     (is_file fs p \<or> is_file fs (strip_separators p)
      \<or> (\<exists>a \<in> set (path_ancestors p). is_file fs a))"

definition preserves :: "(state \<Rightarrow> state \<Rightarrow> bool) \<Rightarrow> 'a prog \<Rightarrow> bool" where
  "preserves R m = (\<forall>s. R s (snd (m s)))"

text \<open>The paths of the images handed to \<open>cv2.imwrite\<close>, in order.\<close>

definition image_writes :: "event list \<Rightarrow> string list" where
  "image_writes evs = concat (map (\<lambda>ev. case ev of ImWrite p \<Rightarrow> [p] | _ \<Rightarrow> []) evs)"

section \<open>Kinds of events and the order of calls\<close>

text \<open>
  An event is a call marker (a function of the program entered or left), an output of
  the program or of the libraries under acquisition and extraction (text printed, the
  HTTP request, an image written), or a call into the labeling library.
\<close>

definition is_marker :: "event \<Rightarrow> bool" where
  "is_marker ev = (case ev of Enter f \<Rightarrow> True | Leave f \<Rightarrow> True | _ \<Rightarrow> False)"

definition is_output :: "event \<Rightarrow> bool" where
  "is_output ev = (case ev of Print msg \<Rightarrow> True | HttpGet url \<Rightarrow> True | ImWrite p \<Rightarrow> True | _ \<Rightarrow> False)"

definition is_labeling :: "event \<Rightarrow> bool" where
  "is_labeling ev = (\<not> is_marker ev \<and> \<not> is_output ev)"

text \<open>The calls into the labeling library made for ontology \<open>m\<close> and the two folders.\<close>

definition labeling_with :: "yaml \<Rightarrow> yaml \<Rightarrow> yaml \<Rightarrow> event \<Rightarrow> bool" where
  "labeling_with m input_folder output_folder ev =
     (ev = NewCaptionOntology m \<or> ev = NewGroundedSAM m \<or> ev = Label m input_folder output_folder)"

text \<open>The trace has grown from \<open>s\<close> to \<open>s1\<close> by events that all satisfy \<open>Q\<close>.\<close>

definition adds_only :: "(event \<Rightarrow> bool) \<Rightarrow> state \<Rightarrow> state \<Rightarrow> bool" where
  "adds_only Q s s1 = (\<exists>evs. trace s1 = trace s @ evs \<and> list_all Q evs)"

text \<open>The call markers of a run, in order.\<close>

definition calls :: "event list \<Rightarrow> event list" where
  "calls evs = filter is_marker evs"

text \<open>
  The markers of a complete run of the router and of the whole program: with
  acquisition and extraction inside the router for a video data set, without them
  otherwise.
\<close>

definition router_calls :: "bool \<Rightarrow> event list" where
  "router_calls video =
     Enter Fn_process_dataset
     # (if video
        then [Enter Fn_download_and_extract_videos, Leave Fn_download_and_extract_videos,
              Enter Fn_extract_frames_from_videos, Leave Fn_extract_frames_from_videos]
        else [])
     @ [Leave Fn_process_dataset]"

definition call_order :: "bool \<Rightarrow> event list" where
  "call_order video =
     [Enter Fn_main, Enter Fn_load_config, Leave Fn_load_config, Enter Fn_process_dataset]
     @ (if video
        then [Enter Fn_download_and_extract_videos, Leave Fn_download_and_extract_videos,
              Enter Fn_extract_frames_from_videos, Leave Fn_extract_frames_from_videos]
        else [])
     @ [Leave Fn_process_dataset, Enter Fn_auto_label_images, Leave Fn_auto_label_images,
        Leave Fn_main]"

text \<open>
  A program whose markers, in every run, are a prefix of one of the sequences in \<open>A\<close>
  and, when it returns, one of them. Sequences compose by concatenation.
\<close>

definition seq_calls :: "event list set \<Rightarrow> event list set \<Rightarrow> event list set" where
  "seq_calls A B = (\<lambda>(a, b). a @ b) ` (A \<times> B)"

definition emits_calls :: "'a prog \<Rightarrow> event list set \<Rightarrow> bool" where
  "emits_calls m A =
     (\<forall>s. \<exists>evs. trace (snd (m s)) = trace s @ evs
               \<and> (\<exists>a \<in> A. prefix (calls evs) a)
               \<and> (case fst (m s) of Inl e \<Rightarrow> True | Inr x \<Rightarrow> calls evs \<in> A))"

text \<open>A configuration in which \<open>config['data']['image']['image_dir']\<close> raises KeyError.\<close>

definition omits_image_dir :: "yaml \<Rightarrow> bool" where
  "omits_image_dir config =
     (case subscripts config [''data'', ''image'', ''image_dir''] of
        Inl (KeyError k) \<Rightarrow> True
      | _ \<Rightarrow> False)"

section \<open>Frame file names\<close>

text \<open>The name of frame number \<open>i\<close> of a video: what the pattern built by the extractor formats to.\<close>

definition frame_file_name :: "string \<Rightarrow> nat \<Rightarrow> string" where
  "frame_file_name video_name i = video_name @ ''-'' @ format_05d i @ ''.png''"

definition is_digit :: "char \<Rightarrow> bool" where
  "is_digit c = (c \<in> set ''0123456789'')"

text \<open>A name of the form \<open><video-basename>-<5 digits>.png\<close>.\<close>

definition five_digit_frame_name :: "string \<Rightarrow> string \<Rightarrow> bool" where
  "five_digit_frame_name video_name name =
     (let digits = take 5 (drop (length video_name + 1) name)
      in length digits = 5 \<and> list_all is_digit digits
         \<and> name = video_name @ ''-'' @ digits @ ''.png'')"

text \<open>The number a string of decimal digits stands for.\<close>

definition digit_value :: "char \<Rightarrow> nat" where
  "digit_value c = of_char c - 48"

definition digits_value :: "string \<Rightarrow> nat" where
  "digits_value ds = foldl (\<lambda>acc c. 10 * acc + digit_value c) 0 ds"

section \<open>Example configurations, world and starting states\<close>

definition demo_image_config :: yaml where
  "demo_image_config =
     YMap [(''data'', YMap [(''input_type'', YStr ''image''),
                            (''dataset_dir'', YStr ''out''),
                            (''image'', YMap [(''image_dir'', YStr ''imgs'')])]),
           (''ontology'', YMap [(''a person'', YStr ''person'')])]"

definition demo_video_config :: yaml where
  "demo_video_config =
     YMap [(''data'', YMap [(''input_type'', YStr ''video''),
                            (''dataset_dir'', YStr ''out''),
                            (''video'', YMap [(''video_url'', YStr ''http://host/v.zip''),
                                              (''video_dir'', YStr ''vids''),
                                              (''frame_stride'', YInt 2)])]),
           (''ontology'', YMap [(''a person'', YStr ''person'')])]"

text \<open>
  A world in which nothing goes wrong: the file \<open>config.yaml\<close> parses to one of the two
  configurations above according to its content, the server sends an archive with one
  video of three frames, and the labeling library leaves the disk alone.
\<close>

definition demo_world :: world where
  "demo_world = \<lparr>
     yaml_safe_load = (\<lambda>t. if t = ''image'' then Inr demo_image_config
                          else if t = ''video'' then Inr demo_video_config
                          else Inl (LibraryError ''YAMLError'')),
     requests_get = (\<lambda>u. Inr ''ZIP''),
     zip_entries = (\<lambda>a. Inr [(''clip.mp4'', Some ''VID'')]),
     cv2_decode = (\<lambda>c. Some [''f0'', ''f1'', ''f2'']),
     png_encode = (\<lambda>f. f),
     os_refuses = (\<lambda>c fs. None),
     stat_fd = (\<lambda>n. Inr False),
     str_format_error = (\<lambda>p n. LibraryError ''format''),
     str_format_other = (\<lambda>p n. Inl (LibraryError ''format'')),
     caption_ontology_error = (\<lambda>m. None),
     grounded_sam_init = (\<lambda>m fs. (None, fs)),
     grounded_sam_label = (\<lambda>m i out fs. (None, fs)) \<rparr>"

definition empty_state :: state where
  "empty_state = \<lparr>disk = [], trace = []\<rparr>"

definition video_state :: state where
  "video_state = \<lparr>disk = [(''config.yaml'', File ''video'')], trace = []\<rparr>"

definition image_state :: state where
  "image_state = \<lparr>disk = [(''config.yaml'', File ''image''), (''imgs'', Dir)], trace = []\<rparr>"

text \<open>A disk on which both directories of the video configuration are there already.\<close>

definition ready_state :: state where
  "ready_state =
     \<lparr>disk = [(''config.yaml'', File ''video''), (''vids'', Dir), (''out'', Dir)], trace = []\<rparr>"

definition vids_state :: state where
  "vids_state = \<lparr>disk = [(''vids'', Dir)], trace = []\<rparr>"

definition clip_state :: state where
  "clip_state = \<lparr>disk = [(''vids/clip.mp4'', File ''VID''), (''out'', Dir)], trace = []\<rparr>"

text \<open>
  The same video where the name of its first image is taken by a directory, and where
  there is no output directory yet.
\<close>

definition blocked_state :: state where
  "blocked_state =
     \<lparr>disk = [(''vids/clip.mp4'', File ''VID''), (''out'', Dir), (''out/clip-00000.png'', Dir)],
      trace = []\<rparr>"


text \<open>The files directly inside a directory, in enumeration order.\<close>

definition files_inside :: "string \<Rightarrow> filesystem \<Rightarrow> string list" where
  "files_inside d fs = filter (\<lambda>p. is_file fs p \<and> child_name d p \<noteq> None) (map fst fs)"

text \<open>Videos whose base names have braces: one on its own, and doubled ones.\<close>

definition brace_state :: state where
  "brace_state = \<lparr>disk = [(''vids/a{b.mp4'', File ''VID''), (''out'', Dir)], trace = []\<rparr>"

definition doubled_brace_state :: state where
  "doubled_brace_state = \<lparr>disk = [(''vids/a{{b}}.mp4'', File ''VID''), (''out'', Dir)], trace = []\<rparr>"

text \<open>The same world with a video of 100001 frames.\<close>

definition long_world :: world where
  "long_world = demo_world\<lparr>cv2_decode := (\<lambda>c. Some (replicate 100001 ''frame''))\<rparr>"

section \<open>Basic facts about programs\<close>

lemma andthen_succeed [simp]: "andthen (succeed x) f = f x"
  by (rule ext) (simp add: andthen_def succeed_def)

lemma andthen_raise [simp]: "andthen (raise e) f = raise e"
  by (rule ext) (simp add: andthen_def raise_def)

lemma andthen_pure_Inr [simp]: "andthen (pure_result (Inr x)) f = f x"
  by (rule ext) (simp add: andthen_def pure_result_def)

lemma andthen_pure_Inl [simp]: "andthen (pure_result (Inl e)) f = raise e"
  by (rule ext) (simp add: andthen_def pure_result_def raise_def)

lemma andthen_emit [simp]: "andthen (emit ev) f s = f () (s\<lparr>trace := trace s @ [ev]\<rparr>)"
  by (simp add: andthen_def emit_def)

lemma andthen_py_print [simp]:
  "andthen (py_print msg) f s = f () (s\<lparr>trace := trace s @ [Print msg]\<rparr>)"
  by (simp add: py_print_def)

lemma andthen_result:
  assumes "andthen m f s = (r, s2)"
  obtains (raised) e where "m s = (Inl e, s2)" and "r = Inl e"
        | (went_on) x s1 where "m s = (Inr x, s1)" and "f x s1 = (r, s2)"
  using assms by (auto simp: andthen_def split: prod.splits sum.splits)

lemma map_of_mkdir_missing:
  "map_of (mkdir_missing p fs) q =
     (case map_of fs q of Some n \<Rightarrow> Some n | None \<Rightarrow> if q = p then Some Dir else None)"
  by (auto simp: mkdir_missing_def path_exists_def update_conv' split: option.splits)

lemma map_of_fold_mkdir_missing:
  "map_of (fold mkdir_missing ps fs) q =
     (case map_of fs q of Some n \<Rightarrow> Some n | None \<Rightarrow> if q \<in> set ps then Some Dir else None)"
proof (induction ps arbitrary: fs)
  case Nil
  then show ?case by (simp split: option.splits)
next
  case (Cons p ps)
  have "map_of (fold mkdir_missing (p # ps) fs) q = map_of (fold mkdir_missing ps (mkdir_missing p fs)) q"
    by simp
  also have "\<dots> = (case map_of (mkdir_missing p fs) q of
                     Some n \<Rightarrow> Some n | None \<Rightarrow> if q \<in> set ps then Some Dir else None)"
    by (rule Cons.IH)
  also have "\<dots> = (case map_of fs q of
                     Some n \<Rightarrow> Some n | None \<Rightarrow> if q \<in> set (p # ps) then Some Dir else None)"
    by (simp add: map_of_mkdir_missing split: option.splits)
  finally show ?case .
qed

lemma os_makedirs_ok:
  assumes "os_makedirs w ok v s = (Inr u, s1)"
  obtains p where "v = YStr p" and "is_dir (disk s1) p" and "trace s1 = trace s"
    and "\<And>q n. map_of (disk s) q = Some n \<Longrightarrow> map_of (disk s1) q = Some n"
proof -
  from assms obtain p where v: "v = YStr p"
    by (cases v) (simp_all add: os_makedirs_def)
  from assms v have s1: "s1 = s\<lparr>disk := fold mkdir_missing (path_ancestors p @ [p]) (disk s)\<rparr>"
    and nf: "\<not> is_file (disk s) p"
    by (auto simp: os_makedirs_def split: option.splits if_splits)
  have "is_dir (disk s1) p"
    using nf unfolding s1 is_dir_def is_file_def
    by (simp add: map_of_fold_mkdir_missing del: fold_append fold_simps split: option.splits node.splits)
  moreover have "trace s1 = trace s" by (simp add: s1)
  moreover have "\<And>q n. map_of (disk s) q = Some n \<Longrightarrow> map_of (disk s1) q = Some n"
    by (simp add: s1 map_of_fold_mkdir_missing del: fold_append fold_simps)
  ultimately show thesis using v that by blast
qed

lemma os_makedirs_failed:
  "os_makedirs w ok v s = (Inl e, s1) \<Longrightarrow> s1 = s"
  by (cases v) (auto simp: os_makedirs_def split: option.splits if_splits)


subsection \<open>Relations every step keeps\<close>

lemma preserves_succeed: "reflp R \<Longrightarrow> preserves R (succeed x)"
  by (simp add: preserves_def succeed_def reflpD)

lemma preserves_raise: "reflp R \<Longrightarrow> preserves R (raise e)"
  by (simp add: preserves_def raise_def reflpD)

lemma preserves_pure_result: "reflp R \<Longrightarrow> preserves R (pure_result r)"
  by (simp add: preserves_def pure_result_def reflpD)

lemma preserves_andthen:
  assumes "transp R" and "preserves R m" and "\<And>x. preserves R (f x)"
  shows "preserves R (andthen m f)"
  unfolding preserves_def
proof
  fix s
  show "R s (snd (andthen m f s))"
  proof (cases "m s")
    case (Pair r s1)
    have step: "R s s1" using assms(2) Pair by (auto simp: preserves_def dest: spec [of _ s])
    show ?thesis
    proof (cases r)
      case (Inl e)
      then show ?thesis using Pair step by (simp add: andthen_def)
    next
      case (Inr x)
      have "R s1 (snd (f x s1))" using assms(3) by (simp add: preserves_def)
      then show ?thesis using Pair Inr step assms(1) by (auto simp: andthen_def dest: transpD)
    qed
  qed
qed

lemma preserves_if:
  "preserves R m \<Longrightarrow> preserves R n \<Longrightarrow> preserves R (if b then m else n)"
  by simp

lemma preserves_for_each:
  assumes "reflp R" and "transp R" and "\<And>x. preserves R (body x)"
  shows "preserves R (for_each body xs)"
  by (induction xs) (simp_all add: assms preserves_succeed preserves_andthen)

lemma preserves_for_each_with:
  assumes "reflp R" and "transp R" and "\<And>acc x. preserves R (body acc x)"
  shows "preserves R (for_each_with body xs acc)"
  by (induction xs arbitrary: acc) (simp_all add: assms preserves_succeed preserves_andthen)

lemma preserves_in_function:
  assumes "reflp R" and "transp R" and "\<And>ev. preserves R (emit ev)" and "preserves R body"
  shows "preserves R (in_function f body)"
  unfolding in_function_def
  by (intro preserves_andthen preserves_succeed assms)

lemma preservesD: "preserves R m \<Longrightarrow> m s = (r, s1) \<Longrightarrow> R s s1"
  by (auto simp: preserves_def dest: spec [of _ s])

subsection \<open>Directories stay directories, files stay files\<close>

lemma reflp_entries_kept: "reflp entries_kept"
  by (simp add: reflp_def entries_kept_def)

lemma transp_entries_kept: "transp entries_kept"
  by (auto simp: transp_def entries_kept_def)

lemma entries_kept_same_disk: "disk s1 = disk s \<Longrightarrow> entries_kept s s1"
  by (simp add: entries_kept_def)

lemma kept_emit: "preserves entries_kept (emit ev)"
  by (simp add: preserves_def emit_def entries_kept_def)

lemma kept_os_path_exists: "preserves entries_kept (os_path_exists w v)"
  by (cases v) (simp_all add: preserves_def os_path_exists_def entries_kept_def)

lemma kept_os_makedirs: "preserves entries_kept (os_makedirs w ok v)"
  unfolding preserves_def
proof
  fix s
  show "entries_kept s (snd (os_makedirs w ok v s))"
  proof (cases "os_makedirs w ok v s")
    case (Pair r s1)
    show ?thesis
    proof (cases r)
      case (Inl e)
      then show ?thesis using Pair os_makedirs_failed [of w ok v s e s1]
        by (simp add: entries_kept_def)
    next
      case (Inr u)
      with Pair have run: "os_makedirs w ok v s = (Inr u, s1)" by simp
      have keep: "map_of (disk s1) q = Some n" if "map_of (disk s) q = Some n" for q n
        using that by (rule_tac os_makedirs_ok [OF run]) blast
      show ?thesis
        using keep by (auto simp: Pair entries_kept_def is_dir_def is_file_def split: option.splits node.splits)
    qed
  qed
qed

lemma kept_read_file: "preserves entries_kept (read_file w p)"
  by (simp add: preserves_def read_file_def entries_kept_def split: option.splits node.splits)

lemma update_file_kept:
  "\<not> is_dir fs p \<Longrightarrow>
   (is_dir fs q \<longrightarrow> is_dir (AList.update p (File c) fs) q)
   \<and> (is_file fs q \<longrightarrow> is_file (AList.update p (File c) fs) q)"
  by (auto simp: is_dir_def is_file_def update_conv' split: option.splits node.splits)

lemma kept_write_file: "preserves entries_kept (write_file w p c)"
  using update_file_kept
  by (simp add: preserves_def write_file_def entries_kept_def split: option.splits)

lemma kept_cv2_imwrite: "preserves entries_kept (cv2_imwrite w p img)"
  unfolding cv2_imwrite_def
  apply (rule preserves_andthen [OF transp_entries_kept kept_emit])
  using update_file_kept
  apply (simp add: preserves_def entries_kept_def)
  done


lemmas kept_intros =
  preserves_andthen [OF transp_entries_kept]
  preserves_succeed [OF reflp_entries_kept]
  preserves_raise [OF reflp_entries_kept]
  preserves_pure_result [OF reflp_entries_kept]
  preserves_for_each [OF reflp_entries_kept transp_entries_kept]
  preserves_for_each_with [OF reflp_entries_kept transp_entries_kept]
  preserves_in_function [OF reflp_entries_kept transp_entries_kept kept_emit]
  kept_emit kept_os_path_exists kept_os_makedirs kept_read_file kept_write_file kept_cv2_imwrite

lemma kept_py_print: "preserves entries_kept (py_print msg)"
  by (simp add: py_print_def kept_emit)


lemma kept_ensure_upperdirs: "preserves entries_kept (ensure_upperdirs w target)"
  using kept_os_makedirs [of w False]
  by (simp add: preserves_def ensure_upperdirs_def Let_def entries_kept_def)

lemma kept_extract_member: "preserves entries_kept (extract_member w dir member)"
proof -
  have dir_member: "preserves entries_kept
      (\<lambda>s. if is_dir (disk s) t then (Inr (), s) else os_makedirs w False (YStr t) s)" for t
    using kept_os_makedirs [of w False]
    by (simp add: preserves_def entries_kept_def)
  show ?thesis
    unfolding extract_member_def Let_def
    by (cases "snd member") (auto intro!: kept_intros kept_ensure_upperdirs dir_member)
qed

lemma kept_zip_extractall: "preserves entries_kept (zip_extractall w zip_path path)"
  unfolding zip_extractall_def
  by (cases path) (auto intro!: kept_intros kept_extract_member)









lemma in_function_result:
  assumes "in_function f body s = (r, s2)"
  obtains (raised) e where "body (s\<lparr>trace := trace s @ [Enter f]\<rparr>) = (Inl e, s2)" and "r = Inl e"
        | (returned) x s1 where "body (s\<lparr>trace := trace s @ [Enter f]\<rparr>) = (Inr x, s1)"
            and "r = Inr x" and "s2 = s1\<lparr>trace := trace s1 @ [Leave f]\<rparr>"
  using assms
  by (auto simp: in_function_def andthen_def emit_def succeed_def split: prod.splits sum.splits)

lemma raise_result [simp]: "raise e s = (r, s1) \<longleftrightarrow> r = Inl e \<and> s1 = s"
  by (auto simp: raise_def)

lemma py_print_result [simp]:
  "py_print msg s = (r, s1) \<longleftrightarrow> r = Inr () \<and> s1 = s\<lparr>trace := trace s @ [Print msg]\<rparr>"
  by (auto simp: py_print_def emit_def)

lemma pure_result_result [simp]: "pure_result x s = (r, s1) \<longleftrightarrow> r = x \<and> s1 = s"
  by (auto simp: pure_result_def)

lemma new_events_same [simp]: "new_events s (s\<lparr>trace := trace s @ evs\<rparr>) = evs"
  by (simp add: new_events_def)


subsection \<open>Writing and fetching\<close>

lemma write_file_ok:
  assumes "write_file w p c s = (Inr u, s1)"
  shows "is_file (disk s1) p" and "trace s1 = trace s"
  using assms
  by (auto simp: write_file_def is_file_def update_conv' split: option.splits if_splits)

lemma http_get_trace:
  "http_get w url s = (r, s1) \<Longrightarrow> disk s1 = disk s"
  by (auto simp: http_get_def pure_result_def)

subsection \<open>Decimal formatting and stride sampling\<close>

declare decimal.simps [simp del]

lemma str_format_frame_pattern:
  "str_format w (video_name @ ''-{:05d}.png'') n =
     (case format_literal video_name of
        Some written \<Rightarrow> Inr (frame_file_name written n)
      | None \<Rightarrow> Inl (str_format_error w (video_name @ ''-{:05d}.png'') n))"
  by (simp add: str_format_def frame_file_name_def split: option.splits)

lemma format_literal_brace_free: "brace_free t \<Longrightarrow> format_literal t = Some t"
  by (induction t rule: format_literal.induct) (auto simp: brace_free_def)


lemma digit_char_is_digit: "d < 10 \<Longrightarrow> is_digit (digit_char d)"
  unfolding is_digit_def digit_char_def
  by (rule nth_mem) simp

lemma decimal_digits: "list_all is_digit (decimal n)"
proof (induction n rule: decimal.induct)
  case (1 n)
  show ?case
  proof (cases "n < 10")
    case True
    then show ?thesis by (subst decimal.simps) (simp add: digit_char_is_digit)
  next
    case False
    then show ?thesis using 1
      by (subst decimal.simps) (simp add: digit_char_is_digit)
  qed
qed

lemma decimal_nonempty: "decimal n \<noteq> []"
  by (subst decimal.simps) simp

lemma decimal_length: "0 < k \<Longrightarrow> n < 10 ^ k \<Longrightarrow> length (decimal n) \<le> k"
proof (induction k arbitrary: n)
  case 0
  then show ?case by simp
next
  case (Suc k)
  show ?case
  proof (cases "n < 10")
    case True
    then show ?thesis by (subst decimal.simps) simp
  next
    case False
    with Suc.prems have "0 < k" by (cases k) auto
    moreover from Suc.prems have "n div 10 < 10 ^ k" by (simp add: less_mult_imp_div_less mult.commute)
    ultimately have "length (decimal (n div 10)) \<le> k" by (rule Suc.IH)
    with False show ?thesis by (subst decimal.simps) simp
  qed
qed

lemma format_05d_length: "n < 100000 \<Longrightarrow> length (format_05d n) = 5"
  using decimal_length [of 5 n] by (simp add: format_05d_def)

lemma decimal_length_lower: "10 ^ k \<le> n \<Longrightarrow> k < length (decimal n)"
proof (induction k arbitrary: n)
  case 0
  then show ?case using decimal_nonempty [of n] by simp
next
  case (Suc k)
  have "(10::nat) ^ 1 \<le> 10 ^ Suc k" by (rule power_increasing) simp_all
  from order_trans [OF this Suc.prems] have big: "\<not> n < 10" by simp
  from Suc.prems have "10 ^ k \<le> n div 10" by simp
  then have "k < length (decimal (n div 10))" by (rule Suc.IH)
  with big show ?case by (subst decimal.simps) simp
qed

lemma format_05d_length_iff: "length (format_05d n) = 5 \<longleftrightarrow> n < 100000"
proof
  assume five: "length (format_05d n) = 5"
  show "n < 100000"
  proof (rule ccontr)
    assume "\<not> n < 100000"
    then have "10 ^ 5 \<le> n" by simp
    then have "5 < length (decimal n)" by (rule decimal_length_lower)
    with five show False by (simp add: format_05d_def)
  qed
qed (rule format_05d_length)

lemma format_05d_digits: "list_all is_digit (format_05d n)"
proof -
  have zeros: "list_all is_digit (replicate k (CHR ''0''))" for k
    by (induction k) (simp_all add: is_digit_def)
  show ?thesis by (simp add: format_05d_def decimal_digits zeros)
qed

lemma five_digit_below_100000:
  "n < 100000 \<Longrightarrow> five_digit_frame_name video_name (frame_file_name video_name n)"
  by (simp add: five_digit_frame_name_def frame_file_name_def format_05d_length format_05d_digits)

lemma five_digit_frame_name_iff:
  "five_digit_frame_name video_name (frame_file_name video_name i) \<longleftrightarrow> i < 100000"
proof
  assume "five_digit_frame_name video_name (frame_file_name video_name i)"
  then obtain digits where "length digits = 5"
    and "frame_file_name video_name i = video_name @ ''-'' @ digits @ ''.png''"
    unfolding five_digit_frame_name_def Let_def by blast
  then have "length (format_05d i) = 5"
    by (simp add: frame_file_name_def)
  then show "i < 100000" by (simp add: format_05d_length_iff)
qed (rule five_digit_below_100000)

lemma length_frames_every: "length (frames_every k xs) = (length xs + k) div (k + 1)"
proof (induction k xs rule: frames_every.induct)
  case (1 k)
  then show ?case by simp
next
  case (2 k x xs)
  show ?case
  proof (cases "k \<le> length xs")
    case True
    have "Suc (length xs + k) div Suc k = Suc (length xs div Suc k)"
      using div_add_self2 [of "Suc k" "length xs"] by simp
    then show ?thesis using True 2 by simp
  next
    case False
    have "Suc (length xs + k) div Suc k = Suc (length xs div Suc k)"
      using div_add_self2 [of "Suc k" "length xs"] by simp
    then show ?thesis using False 2 by simp
  qed
qed

lemma format_05d_zero: "format_05d 0 = ''00000''"
  by code_simp

lemma format_05d_100000: "format_05d 100000 = ''100000''"
  by (simp add: format_05d_def decimal.simps digit_char_def)

lemma div_round_up:
  fixes a b :: int
  assumes "0 < b"
  shows "(a + (b - 1)) div b = - (- a div b)"
proof -
  define q where "q = a div b"
  define r where "r = a mod b"
  have a: "a = b * q + r" by (simp add: q_def r_def)
  have r: "0 \<le> r" "r < b" using assms by (simp_all add: r_def)
  have neg: "- a div b = (if r = 0 then - q else - q - 1)"
    using assms by (simp add: zdiv_zminus1_eq_if q_def r_def)
  show ?thesis
  proof (cases "r = 0")
    case True
    have "(a + (b - 1)) div b = ((b - 1) + b * q) div b"
      using a True by (simp add: ac_simps)
    also have "\<dots> = q + (b - 1) div b"
      using assms by (subst div_mult_self2) simp_all
    also have "(b - 1) div b = 0"
      using assms by (simp add: div_pos_pos_trivial)
    finally show ?thesis using neg True by simp
  next
    case False
    have "(a + (b - 1)) div b = ((r - 1) + b * (q + 1)) div b"
      using a by (simp add: algebra_simps)
    also have "\<dots> = (q + 1) + (r - 1) div b"
      using assms by (subst div_mult_self2) simp_all
    also have "(r - 1) div b = 0"
      using r False by (simp add: div_pos_pos_trivial)
    finally show ?thesis using neg False by simp
  qed
qed

lemma ceiling_stride:
  assumes "0 < k"
  shows "nat \<lceil>real n / real_of_int k\<rceil> = (n + nat (k - 1)) div (nat (k - 1) + 1)"
proof -
  define j where "j = nat (k - 1)"
  have k: "k = int (j + 1)" using assms by (simp add: j_def)
  have "\<lceil>real n / real_of_int k\<rceil> = \<lceil>real_of_int (int n) / real_of_int (int (j + 1))\<rceil>"
    by (simp add: k)
  also have "\<dots> = - (- int n div int (j + 1))"
    by (rule ceiling_divide_eq_div)
  also have "\<dots> = (int n + (int (j + 1) - 1)) div int (j + 1)"
    by (rule div_round_up [symmetric]) simp
  also have "\<dots> = int ((n + j) div (j + 1))"
    by (simp add: zdiv_int)
  finally show ?thesis by (simp add: j_def)
qed

subsection \<open>The image sink\<close>

lemma image_writes_append [simp]: "image_writes (xs @ ys) = image_writes xs @ image_writes ys"
  by (simp add: image_writes_def)

lemma image_writes_map_ImWrite [simp]: "image_writes (map ImWrite ps) = ps"
  by (induction ps) (simp_all add: image_writes_def)

lemma new_events_refl [simp]: "new_events s s = []"
  by (simp add: new_events_def)

lemma new_events_extended: "trace s1 = trace s @ evs \<Longrightarrow> new_events s s1 = evs"
  by (simp add: new_events_def)

lemma os_path_exists_state: "os_path_exists w v s = (r, s1) \<Longrightarrow> s1 = s"
  by (cases v) (auto simp: os_path_exists_def)

lemma ImageSink_enter_result:
  assumes "ImageSink_enter w target pattern s = (r, s1)"
  shows "trace s1 = trace s"
    and "map_of (disk s) q = Some n \<Longrightarrow> map_of (disk s1) q = Some n"
    and "r = Inr sink \<Longrightarrow>
           sink = \<lparr>target_dir_path = target, image_name_pattern = pattern, image_count = 0\<rparr>"
proof -
  from assms consider
      (no_answer) e where "os_path_exists w target s = (Inl e, s1)" "r = Inl e"
    | (there) "os_path_exists w target s = (Inr True, s)" "s1 = s"
        "r = Inr \<lparr>target_dir_path = target, image_name_pattern = pattern, image_count = 0\<rparr>"
    | (refused) e where "os_path_exists w target s = (Inr False, s)"
        "os_makedirs w False target s = (Inl e, s1)" "r = Inl e"
    | (made) "os_path_exists w target s = (Inr False, s)"
        "os_makedirs w False target s = (Inr (), s1)"
        "r = Inr \<lparr>target_dir_path = target, image_name_pattern = pattern, image_count = 0\<rparr>"
    unfolding ImageSink_enter_def
    by (elim andthen_result) (auto dest: os_path_exists_state simp: succeed_def split: if_splits)
  then have "trace s1 = trace s
      \<and> (map_of (disk s) q = Some n \<longrightarrow> map_of (disk s1) q = Some n)
      \<and> (r = Inr sink \<longrightarrow>
           sink = \<lparr>target_dir_path = target, image_name_pattern = pattern, image_count = 0\<rparr>)"
  proof cases
    case no_answer
    then show ?thesis by (auto dest: os_path_exists_state)
  next
    case there
    then show ?thesis by simp
  next
    case refused
    then show ?thesis by (auto dest: os_makedirs_failed)
  next
    case made
    show ?thesis using made(3) by (auto intro: os_makedirs_ok [OF made(2)])
  qed
  then show "trace s1 = trace s"
    and "map_of (disk s) q = Some n \<Longrightarrow> map_of (disk s1) q = Some n"
    and "r = Inr sink \<Longrightarrow>
           sink = \<lparr>target_dir_path = target, image_name_pattern = pattern, image_count = 0\<rparr>"
    by simp_all
qed

lemma cv2_imwrite_result:
  "cv2_imwrite w p img s = (r, s1) \<Longrightarrow> r = Inr () \<and> trace s1 = trace s @ [ImWrite p]"
  by (auto simp: cv2_imwrite_def split: if_splits)

lemma ImageSink_save_image_named:
  assumes "target_dir_path sink = YStr d"
    and "image_name_pattern sink = video_name @ ''-{:05d}.png''"
    and "format_literal video_name = Some written"
  shows "\<exists>s1. ImageSink_save_image w sink img s
                = (Inr (sink\<lparr>image_count := image_count sink + 1\<rparr>), s1)
              \<and> trace s1 = trace s
                   @ [ImWrite (os_path_join d (frame_file_name written (image_count sink)))]"
proof -
  obtain r s1 where w: "cv2_imwrite w (os_path_join d (frame_file_name written (image_count sink)))
      img s = (r, s1)" by (cases "cv2_imwrite w
        (os_path_join d (frame_file_name written (image_count sink))) img s")
  then have "r = Inr ()" and "trace s1 = trace s
      @ [ImWrite (os_path_join d (frame_file_name written (image_count sink)))]"
    by (auto dest: cv2_imwrite_result)
  then show ?thesis
    using assms w
    by (simp add: ImageSink_save_image_def str_format_frame_pattern andthen_def succeed_def)
qed

lemma ImageSink_save_image_no_name:
  assumes "image_name_pattern sink = video_name @ ''-{:05d}.png''"
    and "format_literal video_name = None"
  shows "ImageSink_save_image w sink img s
           = (Inl (str_format_error w (image_name_pattern sink) (image_count sink)), s)"
  using assms by (simp add: ImageSink_save_image_def str_format_frame_pattern raise_def)

lemma save_all_no_name:
  assumes "image_name_pattern sink = video_name @ ''-{:05d}.png''"
    and "format_literal video_name = None"
    and "for_each_with (ImageSink_save_image w) frames sink s = (r, s1)"
  shows "s1 = s" and "frames \<noteq> [] \<Longrightarrow> \<exists>e. r = Inl e"
  using assms
  by (cases frames; simp add: succeed_def andthen_def ImageSink_save_image_no_name; fastforce)+

lemma save_all_named:
  assumes "target_dir_path sink = YStr d"
    and "image_name_pattern sink = video_name @ ''-{:05d}.png''"
    and "format_literal video_name = Some written"
  shows "\<exists>sink1 s1. for_each_with (ImageSink_save_image w) frames sink s = (Inr sink1, s1)
           \<and> trace s1 = trace s
                @ map (\<lambda>i. ImWrite (os_path_join d (frame_file_name written (image_count sink + i))))
                    [0..<length frames]"
  using assms
proof (induction frames arbitrary: sink s)
  case Nil
  then show ?case by (simp add: succeed_def)
next
  case (Cons img frames)
  from ImageSink_save_image_named [OF Cons.prems, of w img s] obtain s1 where
    first: "ImageSink_save_image w sink img s
              = (Inr (sink\<lparr>image_count := image_count sink + 1\<rparr>), s1)"
    and t1: "trace s1 = trace s
               @ [ImWrite (os_path_join d (frame_file_name written (image_count sink)))]"
    by blast
  let ?sink = "sink\<lparr>image_count := image_count sink + 1\<rparr>"
  have "\<exists>sink2 s2. for_each_with (ImageSink_save_image w) frames ?sink s1 = (Inr sink2, s2)
           \<and> trace s2 = trace s1
                @ map (\<lambda>i. ImWrite (os_path_join d (frame_file_name written (image_count ?sink + i))))
                    [0..<length frames]"
    using Cons.prems by (intro Cons.IH) simp_all
  then obtain sink2 s2 where
    rest: "for_each_with (ImageSink_save_image w) frames ?sink s1 = (Inr sink2, s2)"
    and t2: "trace s2 = trace s1
                @ map (\<lambda>i. ImWrite (os_path_join d (frame_file_name written (image_count ?sink + i))))
                    [0..<length frames]"
    by blast
  have shift: "map (\<lambda>i. ImWrite (os_path_join d (frame_file_name written (image_count sink + i))))
                 [0..<length (img # frames)]
     = ImWrite (os_path_join d (frame_file_name written (image_count sink)))
       # map (\<lambda>i. ImWrite (os_path_join d (frame_file_name written (image_count ?sink + i))))
           [0..<length frames]"
    by (simp add: upt_conv_Cons map_Suc_upt [symmetric] del: upt_Suc)
  show ?case
    using first rest t1 t2 unfolding shift
    by (simp add: andthen_def)
qed



lemma sv_get_video_frames_generator_result:
  assumes "sv_get_video_frames_generator w source_path stride s = (r, s1)"
  shows "s1 = s"
  using assms
  by (auto simp: sv_get_video_frames_generator_def split: option.splits node.splits yaml.splits)


subsection \<open>Frame file names are distinct\<close>

lemma digit_value_digit_char: "d < 10 \<Longrightarrow> digit_value (digit_char d) = d"
proof -
  assume "d < 10"
  then have "d \<in> {0, 1, 2, 3, 4, 5, 6, 7, 8, 9}" by auto
  then show ?thesis by (auto simp: digit_char_def digit_value_def)
qed

lemma digits_value_snoc: "digits_value (ds @ [c]) = 10 * digits_value ds + digit_value c"
  by (simp add: digits_value_def)

lemma digits_value_decimal: "digits_value (decimal n) = n"
proof (induction n rule: decimal.induct)
  case (1 n)
  show ?case
  proof (cases "n < 10")
    case True
    then show ?thesis
      by (subst decimal.simps) (simp add: digits_value_def digit_value_digit_char)
  next
    case False
    then have "digits_value (decimal (n div 10)) = n div 10" by (rule 1)
    with False show ?thesis
      by (subst decimal.simps) (simp add: digits_value_snoc digit_value_digit_char)
  qed
qed

lemma digits_value_zeros: "digits_value (replicate k (CHR ''0'') @ ds) = digits_value ds"
  by (induction k) (simp_all add: digits_value_def digit_value_def)

lemma digits_value_format_05d: "digits_value (format_05d n) = n"
  by (simp add: format_05d_def digits_value_zeros digits_value_decimal)






subsection \<open>One video\<close>

lemma extract_frames_from_video_steps:
  assumes "extract_frames_from_video w image_dir frame_stride video_path s = (r, s9)"
  obtains (no_sink) e s1 where
      "ImageSink_enter w image_dir
         (fst (os_path_splitext (os_path_basename video_path)) @ ''-{:05d}.png'') s = (Inl e, s1)"
      "s9 = s1" "r = Inl e"
  | (no_video) sink s1 e where
      "ImageSink_enter w image_dir
         (fst (os_path_splitext (os_path_basename video_path)) @ ''-{:05d}.png'') s = (Inr sink, s1)"
      "sv_get_video_frames_generator w video_path frame_stride s1 = (Inl e, s1)"
      "s9 = s1" "r = Inl e"
  | (saving) sink s1 yielded r2 where
      "ImageSink_enter w image_dir
         (fst (os_path_splitext (os_path_basename video_path)) @ ''-{:05d}.png'') s = (Inr sink, s1)"
      "sv_get_video_frames_generator w video_path frame_stride s1 = (Inr yielded, s1)"
      "for_each_with (ImageSink_save_image w) (fst yielded) sink s1 = (r2, s9)"
      "case r2 of Inl e \<Rightarrow> r = Inl e
               | Inr _ \<Rightarrow> r = (case snd yielded of None \<Rightarrow> Inr () | Some e \<Rightarrow> Inl e)"
proof -
  let ?pattern = "fst (os_path_splitext (os_path_basename video_path)) @ ''-{:05d}.png''"
  obtain r1 s1 where enter: "ImageSink_enter w image_dir ?pattern s = (r1, s1)"
    by (cases "ImageSink_enter w image_dir ?pattern s")
  show thesis
  proof (cases r1)
    case (Inl e)
    with enter assms show ?thesis
      by (intro no_sink [of e s1]) (simp_all add: extract_frames_from_video_def Let_def andthen_def)
  next
    case (Inr sink)
    obtain rg sg where gen: "sv_get_video_frames_generator w video_path frame_stride s1 = (rg, sg)"
      by (cases "sv_get_video_frames_generator w video_path frame_stride s1")
    then have sg: "sg = s1" by (rule sv_get_video_frames_generator_result)
    show ?thesis
    proof (cases rg)
      case (Inl e)
      with enter Inr gen sg assms show ?thesis
        by (intro no_video [of sink s1 e])
           (simp_all add: extract_frames_from_video_def Let_def andthen_def)
    next
      case yielded: (Inr yielded)
      obtain r2 s2 where loop:
        "for_each_with (ImageSink_save_image w) (fst yielded) sink s1 = (r2, s2)"
        by (cases "for_each_with (ImageSink_save_image w) (fst yielded) sink s1")
      with enter Inr gen sg yielded assms show ?thesis
        by (intro saving [of sink s1 yielded r2])
           (auto simp: extract_frames_from_video_def Let_def andthen_def succeed_def raise_def
              split: sum.splits option.splits)
    qed
  qed
qed

lemma extract_frames_from_video_writes_exact:
  assumes run: "extract_frames_from_video w (YStr d) frame_stride video_path s = (r, s9)"
    and name: "video_name = fst (os_path_splitext (os_path_basename video_path))"
    and literal: "format_literal video_name = Some written"
    and enter: "ImageSink_enter w (YStr d) (video_name @ ''-{:05d}.png'') s = (Inr sink, s1)"
    and gen: "sv_get_video_frames_generator w video_path frame_stride s1 = (Inr yielded, s1)"
  shows "image_writes (new_events s s9)
           = map (\<lambda>i. os_path_join d (frame_file_name written i)) [0..<length (fst yielded)]"
  using run
proof (cases rule: extract_frames_from_video_steps)
  case (no_sink e s1)
  then show ?thesis using enter name by simp
next
  case (no_video sink0 s0 e)
  then show ?thesis using enter gen name by simp
next
  case (saving sink0 s0 yielded0 r2)
  have same: "sink0 = sink" "s0 = s1" "yielded0 = yielded"
    using saving(1,2) enter gen name by simp_all
  have sink: "sink = \<lparr>target_dir_path = YStr d,
      image_name_pattern = video_name @ ''-{:05d}.png'', image_count = 0\<rparr>"
    using enter by (rule ImageSink_enter_result(3)) simp
  have t1: "trace s1 = trace s" using enter by (rule ImageSink_enter_result(1))
  from save_all_named [of sink d video_name written w "fst yielded" s1] literal sink saving(3) same
  have "trace s9 = trace s1
         @ map (\<lambda>i. ImWrite (os_path_join d (frame_file_name written i)))
             [0..<length (fst yielded)]"
    by auto
  then show ?thesis
    using t1 image_writes_map_ImWrite [of "map (\<lambda>i. os_path_join d (frame_file_name written i))
        [0..<length (fst yielded)]"]
    by (simp add: new_events_def comp_def)
qed

lemma extract_frames_from_video_writes:
  assumes run: "extract_frames_from_video w (YStr d) frame_stride video_path s = (r, s9)"
    and name: "video_name = fst (os_path_splitext (os_path_basename video_path))"
    and literal: "format_literal video_name = Some written"
  shows "\<exists>k. image_writes (new_events s s9)
               = map (\<lambda>i. os_path_join d (frame_file_name written i)) [0..<k]"
  using run
proof (cases rule: extract_frames_from_video_steps)
  case (no_sink e s1)
  then have "trace s9 = trace s" by (simp add: ImageSink_enter_result(1))
  then have "image_writes (new_events s s9)
             = map (\<lambda>i. os_path_join d (frame_file_name written i)) [0..<0]"
    by (simp add: new_events_def image_writes_def)
  then show ?thesis by blast
next
  case (no_video sink s1 e)
  then have "trace s9 = trace s" by (simp add: ImageSink_enter_result(1))
  then have "image_writes (new_events s s9)
             = map (\<lambda>i. os_path_join d (frame_file_name written i)) [0..<0]"
    by (simp add: new_events_def image_writes_def)
  then show ?thesis by blast
next
  case (saving sink s1 yielded r2)
  from extract_frames_from_video_writes_exact [OF run name literal] saving(1,2) name
  show ?thesis by blast
qed

lemma extract_frames_from_video_no_name:
  assumes run: "extract_frames_from_video w image_dir frame_stride video_path s = (r, s9)"
    and literal: "format_literal (fst (os_path_splitext (os_path_basename video_path))) = None"
  shows "trace s9 = trace s"
  using run
proof (cases rule: extract_frames_from_video_steps)
  case (no_sink e s1)
  then show ?thesis by (simp add: ImageSink_enter_result(1))
next
  case (no_video sink s1 e)
  then show ?thesis by (simp add: ImageSink_enter_result(1))
next
  case (saving sink s1 yielded r2)
  have "image_name_pattern sink
          = fst (os_path_splitext (os_path_basename video_path)) @ ''-{:05d}.png''"
    using ImageSink_enter_result(3) [OF saving(1), of sink] by simp
  then have "s9 = s1" using literal saving(3) by (rule save_all_no_name(1))
  with saving(1) show ?thesis by (simp add: ImageSink_enter_result(1))
qed

subsection \<open>Image files on the disk\<close>


























section \<open>How the trace grows\<close>

lemma reflp_adds_only: "reflp (adds_only Q)"
  by (simp add: reflp_def adds_only_def)

lemma transp_adds_only: "transp (adds_only Q)"
  unfolding transp_def adds_only_def
proof (intro allI impI)
  fix a b c
  assume "\<exists>evs. trace b = trace a @ evs \<and> list_all Q evs"
    and "\<exists>evs. trace c = trace b @ evs \<and> list_all Q evs"
  then obtain e1 e2 where "trace b = trace a @ e1" "list_all Q e1"
    "trace c = trace b @ e2" "list_all Q e2" by blast
  then have "trace c = trace a @ (e1 @ e2) \<and> list_all Q (e1 @ e2)" by simp
  then show "\<exists>evs. trace c = trace a @ evs \<and> list_all Q evs" by blast
qed

lemma adds_only_same_trace: "trace s1 = trace s \<Longrightarrow> adds_only Q s s1"
  by (simp add: adds_only_def)

lemma adds_emit: "Q ev \<Longrightarrow> preserves (adds_only Q) (emit ev)"
  by (simp add: preserves_def emit_def adds_only_def)

lemma adds_py_print: "Q (Print msg) \<Longrightarrow> preserves (adds_only Q) (py_print msg)"
  by (simp add: py_print_def adds_emit)

lemma os_makedirs_trace: "trace (snd (os_makedirs w ok v s)) = trace s"
  by (cases v) (simp_all add: os_makedirs_def split: option.splits)

lemma adds_os_makedirs: "preserves (adds_only Q) (os_makedirs w ok v)"
  by (simp add: preserves_def adds_only_same_trace os_makedirs_trace)

lemma adds_os_path_exists: "preserves (adds_only Q) (os_path_exists w v)"
  by (cases v) (simp_all add: preserves_def os_path_exists_def adds_only_same_trace)

lemma adds_read_file: "preserves (adds_only Q) (read_file w p)"
  by (simp add: preserves_def read_file_def adds_only_same_trace split: option.splits node.splits)

lemma adds_write_file: "preserves (adds_only Q) (write_file w p c)"
  by (simp add: preserves_def write_file_def adds_only_same_trace split: option.splits)

lemma adds_oracle_step: "preserves (adds_only Q) (oracle_step f)"
  by (simp add: preserves_def oracle_step_def adds_only_same_trace split: prod.splits option.splits)

lemma adds_sv_list_files_with_extensions:
  "preserves (adds_only Q) (sv_list_files_with_extensions directory extensions)"
  by (cases directory)
     (simp_all add: preserves_def sv_list_files_with_extensions_def adds_only_same_trace)

lemma adds_sv_get_video_frames_generator:
  "preserves (adds_only Q) (sv_get_video_frames_generator w source_path stride)"
  by (simp add: preserves_def sv_get_video_frames_generator_def adds_only_same_trace
        split: option.splits node.splits yaml.splits)

lemmas adds_intros =
  preserves_andthen [OF transp_adds_only]
  preserves_succeed [OF reflp_adds_only]
  preserves_raise [OF reflp_adds_only]
  preserves_pure_result [OF reflp_adds_only]
  preserves_for_each [OF reflp_adds_only transp_adds_only]
  preserves_for_each_with [OF reflp_adds_only transp_adds_only]
  adds_os_makedirs adds_os_path_exists adds_read_file adds_write_file adds_oracle_step
  adds_sv_list_files_with_extensions adds_sv_get_video_frames_generator

lemma adds_ensure_upperdirs: "preserves (adds_only Q) (ensure_upperdirs w target)"
  using adds_os_makedirs [of Q w False]
  by (simp add: preserves_def ensure_upperdirs_def Let_def adds_only_same_trace)

lemma adds_extract_member: "preserves (adds_only Q) (extract_member w dir member)"
proof -
  have dir_member: "preserves (adds_only Q)
      (\<lambda>s. if is_dir (disk s) t then (Inr (), s) else os_makedirs w False (YStr t) s)" for t
    using adds_os_makedirs [of Q w False]
    by (simp add: preserves_def adds_only_same_trace)
  show ?thesis
    unfolding extract_member_def Let_def
    by (cases "snd member") (auto intro!: adds_intros adds_ensure_upperdirs dir_member)
qed

lemma adds_zip_extractall: "preserves (adds_only Q) (zip_extractall w zip_path path)"
  unfolding zip_extractall_def
  by (cases path) (auto intro!: adds_intros adds_extract_member)

lemma adds_http_get: "Q (HttpGet url) \<Longrightarrow> preserves (adds_only Q) (http_get w url)"
  unfolding http_get_def by (intro adds_intros adds_emit)

lemma adds_cv2_imwrite: "Q (ImWrite p) \<Longrightarrow> preserves (adds_only Q) (cv2_imwrite w p img)"
  unfolding cv2_imwrite_def
proof (rule preserves_andthen [OF transp_adds_only])
  show "preserves (adds_only Q) (emit (ImWrite p))" if "Q (ImWrite p)"
    using that by (rule adds_emit)
qed (simp_all add: preserves_def adds_only_same_trace)

lemma adds_ImageSink_enter: "preserves (adds_only Q) (ImageSink_enter w target pattern)"
  unfolding ImageSink_enter_def
  by (intro adds_intros preserves_if)

lemma adds_ImageSink_save_image:
  "(\<And>p. Q (ImWrite p)) \<Longrightarrow> preserves (adds_only Q) (ImageSink_save_image w sink img)"
  unfolding ImageSink_save_image_def
  by (intro adds_intros adds_cv2_imwrite)

lemma adds_extract_frames_from_video:
  assumes "\<And>p. Q (ImWrite p)"
  shows "preserves (adds_only Q) (extract_frames_from_video w image_dir frame_stride video_path)"
  unfolding extract_frames_from_video_def Let_def
  by (intro adds_intros adds_ImageSink_enter adds_ImageSink_save_image assms)
     (simp add: adds_intros split: option.splits)

section \<open>Call sequences\<close>

lemma calls_append [simp]: "calls (xs @ ys) = calls xs @ calls ys"
  by (simp add: calls_def)

lemma calls_quiet: "list_all (\<lambda>ev. \<not> is_marker ev) evs \<Longrightarrow> calls evs = []"
  by (induction evs) (simp_all add: calls_def)

lemma emits_quiet:
  assumes "preserves (adds_only (\<lambda>ev. \<not> is_marker ev)) m"
  shows "emits_calls m {[]}"
  unfolding emits_calls_def
proof
  fix s
  from assms obtain evs where "trace (snd (m s)) = trace s @ evs"
    "list_all (\<lambda>ev. \<not> is_marker ev) evs"
    by (auto simp: preserves_def adds_only_def)
  then have "trace (snd (m s)) = trace s @ evs \<and> (\<exists>a \<in> {[]}. prefix (calls evs) a)
      \<and> (case fst (m s) of Inl e \<Rightarrow> True | Inr x \<Rightarrow> calls evs \<in> {[]})"
    by (simp add: calls_quiet split: sum.splits)
  then show "\<exists>evs. trace (snd (m s)) = trace s @ evs \<and> (\<exists>a \<in> {[]}. prefix (calls evs) a)
      \<and> (case fst (m s) of Inl e \<Rightarrow> True | Inr x \<Rightarrow> calls evs \<in> {[]})"
    by blast
qed

lemma emits_marker: "is_marker ev \<Longrightarrow> emits_calls (emit ev) {[ev]}"
  by (simp add: emits_calls_def emit_def calls_def)

lemma emits_raise: "emits_calls (raise e) {[]}"
  by (simp add: emits_calls_def raise_def calls_def)

lemma emits_succeed: "emits_calls (succeed x) {[]}"
  by (simp add: emits_calls_def succeed_def calls_def)

lemma emits_weaken: "emits_calls m A \<Longrightarrow> A \<subseteq> B \<Longrightarrow> emits_calls m B"
  unfolding emits_calls_def
  by (auto split: sum.splits) (metis subsetD)+

lemma emits_if:
  assumes "emits_calls m A" and "emits_calls n B"
  shows "emits_calls (if c then m else n) (A \<union> B)"
  using assms by (auto intro: emits_weaken)

lemma emits_andthen:
  assumes first: "emits_calls m A" and second: "\<And>x. emits_calls (f x) B"
  shows "emits_calls (andthen m f) (seq_calls A B)"
  unfolding emits_calls_def
proof
  fix s
  obtain r s1 where run: "m s = (r, s1)" by (cases "m s")
  from first obtain e1 where e1: "trace s1 = trace s @ e1" "\<exists>a \<in> A. prefix (calls e1) a"
    "case r of Inl e \<Rightarrow> True | Inr x \<Rightarrow> calls e1 \<in> A"
    using run unfolding emits_calls_def by (metis fst_conv snd_conv)
  from second obtain b0 where b0: "b0 \<in> B"
    unfolding emits_calls_def by blast
  show "\<exists>evs. trace (snd (andthen m f s)) = trace s @ evs
          \<and> (\<exists>a \<in> seq_calls A B. prefix (calls evs) a)
          \<and> (case fst (andthen m f s) of Inl e \<Rightarrow> True | Inr x \<Rightarrow> calls evs \<in> seq_calls A B)"
  proof (cases r)
    case (Inl e)
    from e1(2) obtain a where "a \<in> A" "prefix (calls e1) a" by blast
    then have "a @ b0 \<in> seq_calls A B" "prefix (calls e1) (a @ b0)"
      using b0 by (auto simp: seq_calls_def)
    then show ?thesis using run Inl e1(1) by (auto simp: andthen_def)
  next
    case (Inr x)
    with e1(3) have a: "calls e1 \<in> A" by simp
    from second [of x] obtain e2 where e2: "trace (snd (f x s1)) = trace s1 @ e2"
      "\<exists>b \<in> B. prefix (calls e2) b"
      "case fst (f x s1) of Inl e \<Rightarrow> True | Inr y \<Rightarrow> calls e2 \<in> B"
      unfolding emits_calls_def by blast
    from e2(2) obtain b where b: "b \<in> B" "prefix (calls e2) b" by blast
    have "trace (snd (andthen m f s)) = trace s @ (e1 @ e2)"
      using run Inr e1(1) e2(1) by (simp add: andthen_def)
    moreover have "calls e1 @ b \<in> seq_calls A B" "prefix (calls (e1 @ e2)) (calls e1 @ b)"
      using a b by (auto simp: seq_calls_def)
    moreover have "case fst (andthen m f s) of Inl e \<Rightarrow> True
        | Inr y \<Rightarrow> calls (e1 @ e2) \<in> seq_calls A B"
      using run Inr e2(3) a by (auto simp: andthen_def seq_calls_def split: sum.splits)
    ultimately show ?thesis by blast
  qed
qed

lemma emits_in_function:
  assumes "emits_calls body A"
  shows "emits_calls (in_function f body)
           (seq_calls {[Enter f]} (seq_calls A (seq_calls {[Leave f]} {[]})))"
  unfolding in_function_def
  by (intro emits_andthen emits_marker emits_succeed assms) (simp_all add: is_marker_def)

subsection \<open>The functions of the program add their own events only\<close>

lemma preserves_andthen_returning:
  assumes "transp R" and "preserves R m"
    and "\<And>s x s1. m s = (Inr x, s1) \<Longrightarrow> P x"
    and "\<And>x. P x \<Longrightarrow> preserves R (f x)"
  shows "preserves R (andthen m f)"
  unfolding preserves_def
proof
  fix s
  obtain r s1 where run: "m s = (r, s1)" by (cases "m s")
  have step: "R s s1" using assms(2) run by (rule preservesD)
  show "R s (snd (andthen m f s))"
  proof (cases r)
    case (Inl e)
    then show ?thesis using run step by (simp add: andthen_def)
  next
    case (Inr x)
    with run have "P x" using assms(3) by blast
    then have "R s1 (snd (f x s1))" using assms(4) by (simp add: preserves_def)
    then show ?thesis using run Inr step assms(1) by (auto simp: andthen_def dest: transpD)
  qed
qed

lemma CaptionOntology_init_returns:
  "CaptionOntology_init w m s = (Inr x, s1) \<Longrightarrow> x = CaptionOntology m"
  by (auto simp: CaptionOntology_init_def succeed_def split: option.splits)

lemma GroundedSAM_init_returns:
  "GroundedSAM_init w ontology s = (Inr x, s1) \<Longrightarrow> x = GroundedSAM ontology"
  by (cases ontology) (auto simp: GroundedSAM_init_def succeed_def elim!: andthen_result)

lemma adds_in_function:
  assumes "Q (Enter f)" and "Q (Leave f)" and "preserves (adds_only Q) body"
  shows "preserves (adds_only Q) (in_function f body)"
  unfolding in_function_def
  by (intro adds_intros adds_emit assms)

lemma adds_load_config:
  assumes "\<And>ev. is_marker ev \<Longrightarrow> Q ev"
  shows "preserves (adds_only Q) (load_config w config_path)"
  unfolding load_config_def
  by (intro adds_in_function adds_intros assms) (simp_all add: is_marker_def)

lemma adds_download_and_extract_videos:
  assumes "\<And>ev. is_marker ev \<or> is_output ev \<Longrightarrow> Q ev"
  shows "preserves (adds_only Q) (download_and_extract_videos w video_url video_dir)"
  unfolding download_and_extract_videos_def
  by (intro adds_in_function adds_intros adds_py_print adds_http_get adds_zip_extractall assms)
     (simp_all add: is_marker_def is_output_def)

lemma adds_extract_frames_from_videos:
  assumes "\<And>ev. is_marker ev \<or> is_output ev \<Longrightarrow> Q ev"
  shows "preserves (adds_only Q) (extract_frames_from_videos w video_dir image_dir frame_stride)"
  unfolding extract_frames_from_videos_def
  by (intro adds_in_function adds_intros adds_extract_frames_from_video assms)
     (simp_all add: is_marker_def is_output_def)

lemma adds_process_dataset:
  assumes "\<And>ev. is_marker ev \<or> is_output ev \<Longrightarrow> Q ev"
  shows "preserves (adds_only Q) (process_dataset w input_type config)"
  unfolding process_dataset_def
  by (intro adds_in_function adds_intros adds_py_print preserves_if
        adds_download_and_extract_videos adds_extract_frames_from_videos assms)
     (simp_all add: is_marker_def is_output_def)

lemma adds_labeling_steps:
  assumes "\<And>ev. is_output ev \<or> labeling_with m image_dir dataset_dir ev \<Longrightarrow> Q ev"
  shows "preserves (adds_only Q)
     (andthen (CaptionOntology_init w m) (\<lambda>ontology.
      andthen (GroundedSAM_init w ontology) (\<lambda>base_model.
      andthen (py_print [Lit ''Starting auto-labeling of images...'']) (\<lambda>_.
      GroundedSAM_label w base_model image_dir dataset_dir))))"
proof -
  have init: "preserves (adds_only Q) (CaptionOntology_init w m)"
    unfolding CaptionOntology_init_def
    by (intro adds_intros adds_emit assms)
       (simp_all add: labeling_with_def adds_intros split: option.splits)
  have sam: "preserves (adds_only Q) (GroundedSAM_init w ontology)"
    if "ontology = CaptionOntology m" for ontology
    unfolding GroundedSAM_init_def that
    by (simp, intro adds_intros adds_emit assms) (simp add: labeling_with_def)
  have label: "preserves (adds_only Q) (GroundedSAM_label w base_model image_dir dataset_dir)"
    if "base_model = GroundedSAM (CaptionOntology m)" for base_model
    unfolding GroundedSAM_label_def that
    by (simp, intro adds_intros adds_emit assms) (simp add: labeling_with_def)
  show ?thesis
  proof (rule preserves_andthen_returning [OF transp_adds_only init CaptionOntology_init_returns])
    fix ontology
    assume ontology: "ontology = CaptionOntology m"
    show "preserves (adds_only Q)
      (andthen (GroundedSAM_init w ontology) (\<lambda>base_model.
       andthen (py_print [Lit ''Starting auto-labeling of images...'']) (\<lambda>_.
       GroundedSAM_label w base_model image_dir dataset_dir)))"
    proof (rule preserves_andthen_returning [OF transp_adds_only sam [OF ontology]
          GroundedSAM_init_returns])
      fix base_model
      assume "base_model = GroundedSAM ontology"
      then have "base_model = GroundedSAM (CaptionOntology m)" using ontology by simp
      then show "preserves (adds_only Q)
        (andthen (py_print [Lit ''Starting auto-labeling of images...'']) (\<lambda>_.
         GroundedSAM_label w base_model image_dir dataset_dir))"
        by (intro adds_intros adds_py_print label assms) (simp add: is_output_def)
    qed
  qed
qed

lemma adds_auto_label_images:
  assumes "\<And>ev. is_marker ev \<or> is_output ev \<or> labeling_with m image_dir dataset_dir ev \<Longrightarrow> Q ev"
  shows "preserves (adds_only Q) (auto_label_images w image_dir dataset_dir m)"
  unfolding auto_label_images_def
  by (intro adds_in_function adds_labeling_steps assms) (auto simp: is_marker_def)

section \<open>The ways a run of \<open>main\<close> can go\<close>

lemma main_cases:
  assumes run: "main w config_path s = (r, s9)"
  obtains
    (load_failed) e where
      "load_config w config_path (s\<lparr>trace := trace s @ [Enter Fn_main]\<rparr>) = (Inl e, s9)"
      "r = Inl e"
  | (no_input_type) config e where
      "load_config w config_path (s\<lparr>trace := trace s @ [Enter Fn_main]\<rparr>) = (Inr config, s9)"
      "subscripts config [''data'', ''input_type''] = Inl e"
      "r = Inl e"
  | (router_failed) config s1 input_type e where
      "load_config w config_path (s\<lparr>trace := trace s @ [Enter Fn_main]\<rparr>) = (Inr config, s1)"
      "subscripts config [''data'', ''input_type''] = Inr input_type"
      "process_dataset w input_type config s1 = (Inl e, s9)"
      "r = Inl e"
  | (lookup_failed) config s1 input_type e where
      "load_config w config_path (s\<lparr>trace := trace s @ [Enter Fn_main]\<rparr>) = (Inr config, s1)"
      "subscripts config [''data'', ''input_type''] = Inr input_type"
      "process_dataset w input_type config s1 = (Inr (), s9)"
      "py_getitem config ''ontology'' = Inl e
       \<or> (\<exists>ontology_mapping. py_getitem config ''ontology'' = Inr ontology_mapping
            \<and> (subscripts config [''data'', ''image'', ''image_dir''] = Inl e
               \<or> (\<exists>image_dir. subscripts config [''data'', ''image'', ''image_dir''] = Inr image_dir
                    \<and> subscripts config [''data'', ''dataset_dir''] = Inl e)))"
      "r = Inl e"
  | (labeling_failed) config s1 input_type s2 ontology_mapping image_dir dataset_dir e where
      "load_config w config_path (s\<lparr>trace := trace s @ [Enter Fn_main]\<rparr>) = (Inr config, s1)"
      "subscripts config [''data'', ''input_type''] = Inr input_type"
      "process_dataset w input_type config s1 = (Inr (), s2)"
      "py_getitem config ''ontology'' = Inr ontology_mapping"
      "subscripts config [''data'', ''image'', ''image_dir''] = Inr image_dir"
      "subscripts config [''data'', ''dataset_dir''] = Inr dataset_dir"
      "auto_label_images w image_dir dataset_dir ontology_mapping s2 = (Inl e, s9)"
      "r = Inl e"
  | (completed) config s1 input_type s2 ontology_mapping image_dir dataset_dir s3 where
      "load_config w config_path (s\<lparr>trace := trace s @ [Enter Fn_main]\<rparr>) = (Inr config, s1)"
      "subscripts config [''data'', ''input_type''] = Inr input_type"
      "process_dataset w input_type config s1 = (Inr (), s2)"
      "py_getitem config ''ontology'' = Inr ontology_mapping"
      "subscripts config [''data'', ''image'', ''image_dir''] = Inr image_dir"
      "subscripts config [''data'', ''dataset_dir''] = Inr dataset_dir"
      "auto_label_images w image_dir dataset_dir ontology_mapping s2 = (Inr (), s3)"
      "s9 = s3\<lparr>trace := trace s3 @ [Print [Lit ''Dataset construction complete.''],
                                       Leave Fn_main]\<rparr>"
      "r = Inr ()"
proof -
  let ?s0 = "s\<lparr>trace := trace s @ [Enter Fn_main]\<rparr>"
  obtain r1 s1 where load: "load_config w config_path ?s0 = (r1, s1)"
    by (cases "load_config w config_path ?s0")
  show thesis
  proof (cases r1)
    case (Inl e)
    with load run show ?thesis
      by (intro load_failed [of e])
         (simp_all add: main_def in_function_def andthen_def emit_def)
  next
    case config: (Inr config)
    show ?thesis
    proof (cases "subscripts config [''data'', ''input_type'']")
      case (Inl e)
      with load config run show ?thesis
        by (intro no_input_type [of config e])
           (simp_all add: main_def in_function_def andthen_def emit_def raise_def pure_result_def
              del: subscripts.simps)
    next
      case it: (Inr input_type)
      obtain r2 s2 where router: "process_dataset w input_type config s1 = (r2, s2)"
        by (cases "process_dataset w input_type config s1")
      show ?thesis
      proof (cases r2)
        case (Inl e)
        with load config it router run show ?thesis
          by (intro router_failed [of config s1 input_type e])
             (simp_all add: main_def in_function_def andthen_def emit_def pure_result_def
                del: subscripts.simps)
      next
        case (Inr u)
        with router have router: "process_dataset w input_type config s1 = (Inr (), s2)" by simp
        have after: "andthen (pure_result (py_getitem config ''ontology'')) (\<lambda>ontology_mapping.
            andthen (pure_result (subscripts config [''data'', ''image'', ''image_dir''])) (\<lambda>image_dir.
            andthen (pure_result (subscripts config [''data'', ''dataset_dir''])) (\<lambda>dataset_dir.
            andthen (auto_label_images w image_dir dataset_dir ontology_mapping) (\<lambda>_.
            py_print [Lit ''Dataset construction complete.''])))) s2 = (r, s9)
            \<and> (\<exists>e. r = Inl e)
          \<or> (\<exists>s8. andthen (pure_result (py_getitem config ''ontology'')) (\<lambda>ontology_mapping.
            andthen (pure_result (subscripts config [''data'', ''image'', ''image_dir''])) (\<lambda>image_dir.
            andthen (pure_result (subscripts config [''data'', ''dataset_dir''])) (\<lambda>dataset_dir.
            andthen (auto_label_images w image_dir dataset_dir ontology_mapping) (\<lambda>_.
            py_print [Lit ''Dataset construction complete.''])))) s2 = (Inr (), s8)
            \<and> r = Inr () \<and> s9 = s8\<lparr>trace := trace s8 @ [Leave Fn_main]\<rparr>)"
          using run load config it router
          by (auto simp: main_def in_function_def andthen_def emit_def pure_result_def succeed_def
                simp del: subscripts.simps split: sum.splits prod.splits)
        show ?thesis
        proof (cases "py_getitem config ''ontology''")
          case (Inl e)
          with after load config it router show ?thesis
            by (intro lookup_failed [of config s1 input_type e]) (auto simp del: subscripts.simps)
        next
          case om: (Inr ontology_mapping)
          show ?thesis
          proof (cases "subscripts config [''data'', ''image'', ''image_dir'']")
            case (Inl e)
            with after load config it router om show ?thesis
              by (intro lookup_failed [of config s1 input_type e]) (auto simp del: subscripts.simps)
          next
            case idir: (Inr image_dir)
            show ?thesis
            proof (cases "subscripts config [''data'', ''dataset_dir'']")
              case (Inl e)
              with after load config it router om idir show ?thesis
                by (intro lookup_failed [of config s1 input_type e])
                   (auto simp del: subscripts.simps)
            next
              case ddir: (Inr dataset_dir)
              obtain r3 s3 where label:
                "auto_label_images w image_dir dataset_dir ontology_mapping s2 = (r3, s3)"
                by (cases "auto_label_images w image_dir dataset_dir ontology_mapping s2")
              show ?thesis
              proof (cases r3)
                case (Inl e)
                with after load config it router om idir ddir label show ?thesis
                  by (intro labeling_failed [of config s1 input_type s2 ontology_mapping
                        image_dir dataset_dir e])
                     (auto simp: andthen_def simp del: subscripts.simps)
              next
                case (Inr u)
                with after load config it router om idir ddir label show ?thesis
                  by (intro completed [of config s1 input_type s2 ontology_mapping
                        image_dir dataset_dir s3])
                     (auto simp: andthen_def py_print_def emit_def simp del: subscripts.simps)
              qed
            qed
          qed
        qed
      qed
    qed
  qed
qed

subsection \<open>Call sequences of the functions\<close>

lemma seq_calls_single [simp]: "seq_calls {a} {b} = {a @ b}"
  by (simp add: seq_calls_def)

lemma seq_calls_Un1 [simp]: "seq_calls (A \<union> B) C = seq_calls A C \<union> seq_calls B C"
  by (auto simp: seq_calls_def)

lemma seq_calls_Un2 [simp]: "seq_calls A (B \<union> C) = seq_calls A B \<union> seq_calls A C"
  by (auto simp: seq_calls_def)

lemma seq_calls_insert2 [simp]:
  "seq_calls {a} (insert b B) = insert (a @ b) (seq_calls {a} B)"
  by (auto simp: seq_calls_def)

lemma seq_calls_insert1:
  "seq_calls (insert a A) {b} = insert (a @ b) (seq_calls A {b})"
  by (auto simp: seq_calls_def)

lemma seq_calls_empty [simp]: "seq_calls {} B = {}" "seq_calls A {} = {}"
  by (simp_all add: seq_calls_def)

lemma emits_quiet_function:
  assumes "preserves (adds_only (\<lambda>ev. \<not> is_marker ev)) body"
  shows "emits_calls (in_function f body) {[Enter f, Leave f]}"
  by (rule emits_weaken [OF emits_in_function [OF emits_quiet [OF assms]]]) simp

lemma emits_load_config: "emits_calls (load_config w config_path) {[Enter Fn_load_config, Leave Fn_load_config]}"
  unfolding load_config_def
  by (intro emits_quiet_function adds_intros)

lemma emits_download_and_extract_videos:
  "emits_calls (download_and_extract_videos w video_url video_dir)
     {[Enter Fn_download_and_extract_videos, Leave Fn_download_and_extract_videos]}"
  unfolding download_and_extract_videos_def
  by (intro emits_quiet_function adds_intros adds_py_print adds_http_get adds_zip_extractall)
     (simp_all add: is_marker_def)

lemma emits_extract_frames_from_videos:
  "emits_calls (extract_frames_from_videos w video_dir image_dir frame_stride)
     {[Enter Fn_extract_frames_from_videos, Leave Fn_extract_frames_from_videos]}"
  unfolding extract_frames_from_videos_def
  by (intro emits_quiet_function adds_intros adds_extract_frames_from_video)
     (simp_all add: is_marker_def)

lemma emits_auto_label_images:
  "emits_calls (auto_label_images w image_dir dataset_dir ontology_mapping)
     {[Enter Fn_auto_label_images, Leave Fn_auto_label_images]}"
  unfolding auto_label_images_def
  by (intro emits_quiet_function adds_labeling_steps)
     (auto simp: is_marker_def is_output_def labeling_with_def split: event.splits)

lemma emits_pure_result: "emits_calls (pure_result x) {[]}"
  by (cases x) (simp_all add: emits_calls_def pure_result_def calls_def)

lemma emits_if_True: "c \<Longrightarrow> emits_calls m A \<Longrightarrow> emits_calls (if c then m else n) A"
  by simp

lemma emits_if_False: "\<not> c \<Longrightarrow> emits_calls n A \<Longrightarrow> emits_calls (if c then m else n) A"
  by simp

lemma emits_py_print: "emits_calls (py_print msg) {[]}"
  by (simp add: emits_calls_def py_print_def emit_def calls_def is_marker_def)

lemma emits_os_makedirs: "emits_calls (os_makedirs w ok v) {[]}"
  by (intro emits_quiet adds_intros)

lemma emits_os_path_exists: "emits_calls (os_path_exists w v) {[]}"
  by (intro emits_quiet adds_intros)

lemma emits_process_dataset:
  "emits_calls (process_dataset w input_type config) {router_calls (input_type = YStr ''video'')}"
proof (cases "input_type = YStr ''video''")
  case True
  have "emits_calls (process_dataset w input_type config)
     (seq_calls {[Enter Fn_process_dataset]}
        (seq_calls
          (seq_calls {[]} (seq_calls {[]} (seq_calls {[]} (seq_calls {[]} (seq_calls {[]}
            (seq_calls {[]} (seq_calls {[]} (seq_calls {[]}
              (seq_calls {[Enter Fn_download_and_extract_videos, Leave Fn_download_and_extract_videos]}
                 {[Enter Fn_extract_frames_from_videos, Leave Fn_extract_frames_from_videos]})))))))))
          (seq_calls {[Leave Fn_process_dataset]} {[]})))"
    unfolding process_dataset_def
    by (intro emits_in_function emits_andthen emits_pure_result emits_py_print emits_if_True
          emits_os_makedirs emits_download_and_extract_videos emits_extract_frames_from_videos True)
  then show ?thesis by (rule emits_weaken) (simp add: router_calls_def True)
next
  case False
  have "emits_calls (process_dataset w input_type config)
     (seq_calls {[Enter Fn_process_dataset]}
        (seq_calls
          (seq_calls {[]}
             (seq_calls {[]} (seq_calls {[]} (seq_calls {[]} ({[]} \<union> {[]}))) \<union> {[]}))
          (seq_calls {[Leave Fn_process_dataset]} {[]})))"
    unfolding process_dataset_def
    by (intro emits_in_function emits_andthen emits_pure_result emits_py_print emits_if_False
          emits_if emits_raise emits_os_makedirs emits_os_path_exists False)
  then show ?thesis by (rule emits_weaken) (simp add: router_calls_def False)
qed

lemma emits_main:
  "emits_calls (main w config_path) {call_order True, call_order False}"
proof -
  have router: "emits_calls (process_dataset w input_type config)
      {router_calls True, router_calls False}" for input_type config
    by (rule emits_weaken [OF emits_process_dataset]) (cases "input_type = YStr ''video''", simp_all)
  have "emits_calls (main w config_path)
     (seq_calls {[Enter Fn_main]}
        (seq_calls
          (seq_calls {[Enter Fn_load_config, Leave Fn_load_config]}
            (seq_calls {[]}
              (seq_calls {router_calls True, router_calls False}
                (seq_calls {[]} (seq_calls {[]} (seq_calls {[]}
                  (seq_calls {[Enter Fn_auto_label_images, Leave Fn_auto_label_images]} {[]})))))))
          (seq_calls {[Leave Fn_main]} {[]})))"
    unfolding main_def
    by (intro emits_in_function emits_andthen emits_pure_result emits_py_print
          emits_load_config emits_auto_label_images router)
  then show ?thesis
    by (rule emits_weaken) (simp add: router_calls_def call_order_def seq_calls_insert1)
qed

subsection \<open>The events of a run of \<open>main\<close>\<close>

lemma adds_only_new_events:
  "adds_only Q s s1 \<Longrightarrow> ev \<in> set (new_events s s1) \<Longrightarrow> Q ev"
  by (auto simp: adds_only_def new_events_def list_all_iff)

lemma adds_only_trans: "adds_only Q a b \<Longrightarrow> adds_only Q b c \<Longrightarrow> adds_only Q a c"
  using transp_adds_only [of Q] by (rule transpD)

lemma adds_only_append:
  "list_all Q evs \<Longrightarrow> adds_only Q s (s\<lparr>trace := trace s @ evs\<rparr>)"
  by (simp add: adds_only_def)

lemma andthen_assoc: "andthen (andthen m f) g = andthen m (\<lambda>x. andthen (f x) g)"
  by (rule ext) (simp add: andthen_def split: prod.splits sum.splits)

lemma new_events_later:
  assumes "adds_only Q s0 s" and "adds_only Q' s s1" and "ev \<in> set (new_events s s1)"
  shows "ev \<in> set (new_events s0 s1)"
  using assms by (auto simp: adds_only_def new_events_def)

lemma new_events_earlier:
  assumes "adds_only Q s s1" and "adds_only Q' s1 s2" and "ev \<in> set (new_events s s1)"
  shows "ev \<in> set (new_events s s2)"
  using assms by (auto simp: adds_only_def new_events_def)

lemma adds_anything_GroundedSAM_init:
  "preserves (adds_only (\<lambda>ev. True)) (GroundedSAM_init w ontology)"
  unfolding GroundedSAM_init_def
  by (cases ontology) (simp, intro adds_intros adds_emit, simp)

lemma adds_anything_GroundedSAM_label:
  "preserves (adds_only (\<lambda>ev. True)) (GroundedSAM_label w base_model i d)"
proof (cases base_model)
  case (GroundedSAM ontology)
  then show ?thesis
    unfolding GroundedSAM_label_def
    by (cases ontology) (simp, intro adds_intros adds_emit, simp)
qed

lemma auto_label_images_constructs:
  assumes "auto_label_images w i d m s = (r, s1)"
  shows "NewCaptionOntology m \<in> set (new_events s s1)"
proof -
  define sb where "sb = s\<lparr>trace := trace s @ [Enter Fn_auto_label_images, NewCaptionOntology m]\<rparr>"
  define later where "later =
     andthen (case caption_ontology_error w m of
                Some e \<Rightarrow> raise e
              | None \<Rightarrow> succeed (CaptionOntology m)) (\<lambda>ontology.
     andthen (GroundedSAM_init w ontology) (\<lambda>base_model.
     andthen (py_print [Lit ''Starting auto-labeling of images...'']) (\<lambda>_.
     andthen (GroundedSAM_label w base_model i d) (\<lambda>x.
     andthen (emit (Leave Fn_auto_label_images)) (\<lambda>_. succeed x)))))"
  have "auto_label_images w i d m s = later sb"
    by (simp add: auto_label_images_def in_function_def CaptionOntology_init_def andthen_assoc
          later_def sb_def)
  moreover have "preserves (adds_only (\<lambda>ev. True)) later"
    unfolding later_def
    by (intro adds_intros adds_py_print adds_emit adds_anything_GroundedSAM_init
          adds_anything_GroundedSAM_label)
       (simp_all add: adds_intros split: option.splits)
  ultimately have "adds_only (\<lambda>ev. True) sb s1"
    using assms preservesD [of "adds_only (\<lambda>ev. True)" later sb r s1] by simp
  then show ?thesis
    by (auto simp: adds_only_def new_events_def sb_def)
qed

lemma main_events:
  assumes run: "main w config_path s = (r, s9)"
  shows "(\<exists>e. r = Inl e) \<and> adds_only (\<lambda>ev. is_marker ev \<or> is_output ev) s s9
       \<or> (\<exists>config s1 m i d.
             load_config w config_path (s\<lparr>trace := trace s @ [Enter Fn_main]\<rparr>) = (Inr config, s1)
           \<and> py_getitem config ''ontology'' = Inr m
           \<and> subscripts config [''data'', ''image'', ''image_dir''] = Inr i
           \<and> subscripts config [''data'', ''dataset_dir''] = Inr d
           \<and> adds_only (\<lambda>ev. is_marker ev \<or> is_output ev \<or> labeling_with m i d ev) s s9
           \<and> NewCaptionOntology m \<in> set (new_events s s9))"
proof -
  let ?Q = "\<lambda>ev. is_marker ev \<or> is_output ev"
  let ?s0 = "s\<lparr>trace := trace s @ [Enter Fn_main]\<rparr>"
  have enter: "adds_only Q s ?s0" if "Q (Enter Fn_main)" for Q
    using that by (intro adds_only_append) simp
  have load: "adds_only Q s s1"
    if "load_config w config_path ?s0 = (x, s1)" "\<And>ev. is_marker ev \<Longrightarrow> Q ev" for x s1 Q
    using enter [of Q] preservesD [OF adds_load_config [of Q] that(1)] that(2)
    by (auto intro: adds_only_trans simp: is_marker_def)
  have router: "adds_only Q s1 s2"
    if "process_dataset w it config s1 = (x, s2)" "\<And>ev. is_marker ev \<or> is_output ev \<Longrightarrow> Q ev"
    for it config x s1 s2 Q
    using preservesD [OF adds_process_dataset [of Q] that(1)] that(2) by blast
  from run show ?thesis
  proof (cases rule: main_cases)
    case (load_failed e)
    then show ?thesis using load [of "Inl e" s9 ?Q] by simp
  next
    case (no_input_type config e)
    then show ?thesis using load [of "Inr config" s9 ?Q] by simp
  next
    case (router_failed config s1 input_type e)
    then show ?thesis
      using load [of "Inr config" s1 ?Q] router [of input_type config s1 "Inl e" s9 ?Q]
      by (auto intro: adds_only_trans)
  next
    case (lookup_failed config s1 input_type e)
    then show ?thesis
      using load [of "Inr config" s1 ?Q] router [of input_type config s1 "Inr ()" s9 ?Q]
      by (auto intro: adds_only_trans)
  next
    case (labeling_failed config s1 input_type s2 m i d e)
    let ?L = "\<lambda>ev. is_marker ev \<or> is_output ev \<or> labeling_with m i d ev"
    have loaded: "adds_only ?L s s1" by (rule load [OF labeling_failed(1)]) simp
    have routed: "adds_only ?L s1 s2" by (rule router [OF labeling_failed(3)]) blast
    have before: "adds_only ?L s s2" using loaded routed by (rule adds_only_trans)
    have label: "adds_only ?L s2 s9"
      using preservesD [OF adds_auto_label_images [of m i d ?L] labeling_failed(7)] by blast
    have "NewCaptionOntology m \<in> set (new_events s s9)"
      using before label auto_label_images_constructs [OF labeling_failed(7)]
      by (rule new_events_later)
    moreover have "adds_only ?L s s9" using before label by (rule adds_only_trans)
    ultimately show ?thesis using labeling_failed(1,4,5,6) by blast
  next
    case (completed config s1 input_type s2 m i d s3)
    let ?L = "\<lambda>ev. is_marker ev \<or> is_output ev \<or> labeling_with m i d ev"
    have loaded: "adds_only ?L s s1" by (rule load [OF completed(1)]) simp
    have routed: "adds_only ?L s1 s2" by (rule router [OF completed(3)]) blast
    have before: "adds_only ?L s s2" using loaded routed by (rule adds_only_trans)
    have label: "adds_only ?L s2 s3"
      using preservesD [OF adds_auto_label_images [of m i d ?L] completed(7)] by blast
    have final: "adds_only ?L s3 s9"
      unfolding completed(8)
      by (intro adds_only_append) (simp add: is_marker_def is_output_def)
    have "NewCaptionOntology m \<in> set (new_events s s3)"
      using before label auto_label_images_constructs [OF completed(7)]
      by (rule new_events_later)
    with adds_only_trans [OF before label] final
    have "NewCaptionOntology m \<in> set (new_events s s9)"
      by (rule new_events_earlier)
    moreover have "adds_only ?L s s9"
      by (rule adds_only_trans [OF adds_only_trans [OF before label] final])
    ultimately show ?thesis using completed(1,4,5,6) by blast
  qed
qed

lemma adds_only_after:
  assumes "adds_only Q (s\<lparr>trace := trace s @ [ev]\<rparr>) s1" and "Q ev"
  shows "adds_only Q s s1"
  using assms by (auto simp: adds_only_def)

lemma py_getitem_KeyError:
  assumes "py_getitem v k = Inr x" and "py_getitem v k' = Inl e"
  shows "e = KeyError k'"
  using assms by (cases v) (auto simp: py_getitem_def split: option.splits)


section \<open>The dataset router\<close>


text \<open>
  Claim C1, as amended. The router reads \<open>config['data']['dataset_dir']\<close> before it
  looks at the input type. For an input type other than "video" and "image" it therefore
  fails with the error of that lookup when the lookup fails, and with ValueError
  otherwise; in both cases the disk is left as it was.
\<close>

theorem invalid_input_type_rejected:
  assumes "input_type \<noteq> YStr ''video''" and "input_type \<noteq> YStr ''image''"
  shows "fst (process_dataset w input_type config s) =
           (case subscripts config [''data'', ''dataset_dir''] of
              Inl e \<Rightarrow> Inl e
            | Inr d \<Rightarrow> Inl (ValueError [Lit ''Invalid input type. Must be 'video' or 'image'.'']))
         \<and> disk (snd (process_dataset w input_type config s)) = disk s"
  using assms
  by (cases "subscripts config [''data'', ''dataset_dir'']")
     (simp_all add: process_dataset_def in_function_def andthen_def emit_def raise_def
        succeed_def pure_result_def del: subscripts.simps)

theorem invalid_input_type_rejected_witness:
  "YStr ''audio'' \<noteq> YStr ''video'' \<and> YStr ''audio'' \<noteq> YStr ''image''
   \<and> fst (process_dataset demo_world (YStr ''audio'')
             (YMap [(''data'', YMap [(''dataset_dir'', YStr ''out'')])]) empty_state)
       = Inl (ValueError [Lit ''Invalid input type. Must be 'video' or 'image'.''])
   \<and> disk (snd (process_dataset demo_world (YStr ''audio'')
             (YMap [(''data'', YMap [(''dataset_dir'', YStr ''out'')])]) empty_state)) = []"
  using invalid_input_type_rejected [of "YStr ''audio''" demo_world
      "YMap [(''data'', YMap [(''dataset_dir'', YStr ''out'')])]" empty_state]
  by (simp add: py_getitem_def empty_state_def)

text \<open>
  The claim as stated fails for a configuration without \<open>data.dataset_dir\<close>: the
  error is KeyError, not ValueError.
\<close>

theorem invalid_input_type_counterexample:
  "fst (process_dataset demo_world (YStr ''audio'')
          (YMap [(''data'', YMap [(''input_type'', YStr ''audio'')])]) empty_state)
     = Inl (KeyError ''dataset_dir'')"
  by (simp add: process_dataset_def in_function_def andthen_def emit_def raise_def
        pure_result_def py_getitem_def)

text \<open>
  Claim C2, as amended. With input type "image" and a configured image directory that
  does not exist, the router fails with the error of the \<open>data.dataset_dir\<close> lookup
  when that lookup fails, and with FileNotFoundError otherwise. The disk is left as it
  was in both cases: the dataset directory is created only after the existence check
  has passed.
\<close>

theorem missing_image_directory:
  assumes "subscripts config [''data'', ''image'', ''image_dir''] = Inr (YStr p)"
    and "\<not> path_exists (disk s) p"
  shows "fst (process_dataset w (YStr ''image'') config s) =
           (case subscripts config [''data'', ''dataset_dir''] of
              Inl e \<Rightarrow> Inl e
            | Inr d \<Rightarrow> Inl (FileNotFoundError
                        [Lit ''Image directory '', Val (YStr p), Lit '' does not exist.'']))
         \<and> disk (snd (process_dataset w (YStr ''image'') config s)) = disk s"
  using assms
  by (cases "subscripts config [''data'', ''dataset_dir'']")
     (simp_all add: process_dataset_def in_function_def andthen_def emit_def raise_def
        succeed_def pure_result_def py_print_def os_path_exists_def del: subscripts.simps)

theorem missing_image_directory_witness:
  "subscripts demo_image_config [''data'', ''image'', ''image_dir''] = Inr (YStr ''imgs'')
   \<and> \<not> path_exists (disk empty_state) ''imgs''
   \<and> fst (process_dataset demo_world (YStr ''image'') demo_image_config empty_state)
       = Inl (FileNotFoundError [Lit ''Image directory '', Val (YStr ''imgs''), Lit '' does not exist.''])
   \<and> disk (snd (process_dataset demo_world (YStr ''image'') demo_image_config empty_state)) = []"
  using missing_image_directory [of demo_image_config "''imgs''" empty_state demo_world]
  by (simp add: py_getitem_def empty_state_def demo_image_config_def path_exists_def)

text \<open>
  The claim as stated fails for a configuration that names an image directory but no
  dataset directory: the error is KeyError, not FileNotFoundError.
\<close>

theorem missing_image_directory_counterexample:
  "fst (process_dataset demo_world (YStr ''image'')
          (YMap [(''data'', YMap [(''input_type'', YStr ''image''),
                                  (''image'', YMap [(''image_dir'', YStr ''imgs'')])])])
          empty_state)
     = Inl (KeyError ''dataset_dir'')"
  by (simp add: process_dataset_def in_function_def andthen_def emit_def raise_def
        pure_result_def py_getitem_def)



section \<open>Video acquisition\<close>

lemma demo_download_run:
  "fst (download_and_extract_videos demo_world (YStr ''http://host/v.zip'') (YStr ''vids'') vids_state)
     = Inr ()"
  by code_simp

text \<open>
  Claim C8. After a successful acquisition into directory \<open>d\<close> the archive
  \<open>videos.zip\<close> inside \<open>d\<close> is still a file on disk: it is written before the
  extraction, extraction only adds or overwrites entries, and nothing deletes it.
\<close>

theorem archive_left_on_disk:
  assumes run: "download_and_extract_videos w video_url video_dir s = (Inr (), s9)"
  shows "\<exists>d. video_dir = YStr d \<and> is_file (disk s9) (os_path_join d ''videos.zip'')"
proof -
  from run obtain d where d: "video_dir = YStr d"
    by (cases video_dir)
       (auto simp: download_and_extract_videos_def in_function_def raise_def)
  define zip_path where "zip_path = os_path_join d ''videos.zip''"
  define s0 where "s0 = s\<lparr>trace := trace s @ [Enter Fn_download_and_extract_videos,
      Print [Lit ''Downloading videos from '', Val video_url, Lit ''...'']]\<rparr>"
  define tail where "tail = (\<lambda>_::unit.
      andthen (py_print [Lit ''Extracting videos to '', Val video_dir, Lit ''...'']) (\<lambda>_.
      andthen (zip_extractall w zip_path video_dir) (\<lambda>_.
      py_print [Lit ''Video download and extraction complete.''])))"
  have kept_tail: "preserves entries_kept (tail u)" for u
    unfolding tail_def by (intro kept_intros kept_py_print kept_zip_extractall)
  from run d obtain s8 where
    body: "andthen (http_get w video_url) (\<lambda>response_content.
             andthen (write_file w zip_path response_content) tail) s0 = (Inr (), s8)"
    and final: "s9 = s8\<lparr>trace := trace s8 @ [Leave Fn_download_and_extract_videos]\<rparr>"
    by (auto simp: download_and_extract_videos_def zip_path_def s0_def tail_def
          elim!: in_function_result)
  from body obtain content s1 where
    "andthen (write_file w zip_path content) tail s1 = (Inr (), s8)"
    by (auto elim: andthen_result)
  then obtain s2 where written: "write_file w zip_path content s1 = (Inr (), s2)"
    and after: "tail () s2 = (Inr (), s8)"
    by (auto elim: andthen_result)
  have "is_file (disk s2) zip_path" using written by (rule write_file_ok)
  moreover have "entries_kept s2 s8" using kept_tail after by (rule preservesD)
  ultimately have "is_file (disk s8) zip_path" by (simp add: entries_kept_def)
  then show ?thesis using d final by (simp add: zip_path_def)
qed

theorem archive_left_on_disk_witness:
  "download_and_extract_videos demo_world (YStr ''http://host/v.zip'') (YStr ''vids'') vids_state
     = (Inr (), snd (download_and_extract_videos demo_world (YStr ''http://host/v.zip'')
                       (YStr ''vids'') vids_state))
   \<and> is_file (disk (snd (download_and_extract_videos demo_world (YStr ''http://host/v.zip'')
                            (YStr ''vids'') vids_state))) ''vids/videos.zip''"
proof -
  have run: "download_and_extract_videos demo_world (YStr ''http://host/v.zip'') (YStr ''vids'') vids_state
     = (Inr (), snd (download_and_extract_videos demo_world (YStr ''http://host/v.zip'')
                       (YStr ''vids'') vids_state))"
    using demo_download_run by (simp add: prod_eq_iff)
  from archive_left_on_disk [OF run] run show ?thesis
    by (simp add: os_path_join_def)
qed

section \<open>The frame extractor\<close>


lemma clip_video_name: "fst (os_path_splitext (os_path_basename ''vids/clip.mp4'')) = ''clip''"
  by code_simp

text \<open>
  Claim C4, as amended. The images of one video are written, in order, under the names
  \<open><name>-<index>.png\<close> for the indices 0, 1, 2, ... without a gap, the first being
  \<open>00000\<close>. The name is the base name of the video as \<open>str.format\<close> writes it: a
  doubled brace in it is written once, a base name without braces is written as it is,
  and for a base name with any other brace formatting raises and no image is written.
  The index is written in decimal and padded with zeros to five digits at least: it has
  exactly five digits for every index below 100000 and more for every index from
  there on.
\<close>

theorem frame_file_names:
  assumes run: "extract_frames_from_video w (YStr d) frame_stride video_path s = (r, s9)"
    and name: "video_name = fst (os_path_splitext (os_path_basename video_path))"
  shows "(case format_literal video_name of
            Some written \<Rightarrow>
              \<exists>k. image_writes (new_events s s9)
                    = map (\<lambda>i. os_path_join d (written @ ''-'' @ format_05d i @ ''.png'')) [0..<k]
          | None \<Rightarrow> image_writes (new_events s s9) = [])
       \<and> (brace_free video_name \<longrightarrow> format_literal video_name = Some video_name)
       \<and> format_05d 0 = ''00000''
       \<and> (\<forall>i. digits_value (format_05d i) = i
              \<and> list_all is_digit (format_05d i)
              \<and> 5 \<le> length (format_05d i)
              \<and> (length (format_05d i) = 5 \<longleftrightarrow> i < 100000)
              \<and> (\<forall>x. five_digit_frame_name x (x @ ''-'' @ format_05d i @ ''.png'')
                       \<longleftrightarrow> i < 100000))"
proof -
  have names: "case format_literal video_name of
            Some written \<Rightarrow>
              \<exists>k. image_writes (new_events s s9)
                    = map (\<lambda>i. os_path_join d (written @ ''-'' @ format_05d i @ ''.png'')) [0..<k]
          | None \<Rightarrow> image_writes (new_events s s9) = []"
  proof (cases "format_literal video_name")
    case None
    with run name have "trace s9 = trace s"
      by (intro extract_frames_from_video_no_name) simp_all
    with None show ?thesis by (simp add: new_events_def image_writes_def)
  next
    case (Some written)
    with extract_frames_from_video_writes [OF run name Some]
    show ?thesis by (simp add: frame_file_name_def)
  qed
  have pad: "5 \<le> length (format_05d i)" for i
    by (simp add: format_05d_def)
  have five: "five_digit_frame_name x (x @ ''-'' @ format_05d i @ ''.png'') \<longleftrightarrow> i < 100000"
    for x i
    using five_digit_frame_name_iff [of x i] by (simp add: frame_file_name_def)
  show ?thesis
    using names pad five
    by (simp add: format_literal_brace_free format_05d_zero digits_value_format_05d
          format_05d_digits format_05d_length_iff)
qed

lemma brace_video_name: "fst (os_path_splitext (os_path_basename ''vids/a{b.mp4'')) = ''a{b''"
  by code_simp

theorem frame_file_names_witness:
  "''clip'' = fst (os_path_splitext (os_path_basename ''vids/clip.mp4''))
   \<and> brace_free ''clip''
   \<and> (\<exists>k. image_writes (new_events clip_state
              (snd (extract_frames_from_video demo_world (YStr ''out'') (YInt 2)
                      ''vids/clip.mp4'' clip_state)))
            = map (\<lambda>i. os_path_join ''out'' (''clip'' @ ''-'' @ format_05d i @ ''.png'')) [0..<k])
   \<and> five_digit_frame_name ''clip'' (''clip'' @ ''-'' @ format_05d 99999 @ ''.png'')
   \<and> ''a{b'' = fst (os_path_splitext (os_path_basename ''vids/a{b.mp4''))
   \<and> format_literal ''a{b'' = None
   \<and> image_writes (new_events brace_state
              (snd (extract_frames_from_video demo_world (YStr ''out'') (YInt 2)
                      ''vids/a{b.mp4'' brace_state))) = []"
proof -
  have name: "''clip'' = fst (os_path_splitext (os_path_basename ''vids/clip.mp4''))"
    by (simp add: clip_video_name)
  have plain: "brace_free ''clip''" by (simp add: brace_free_def)
  note names = frame_file_names [of demo_world "''out''" "YInt 2" "''vids/clip.mp4''" clip_state _ _
      "''clip''", OF prod.collapse [symmetric] name]
  from names plain have literal: "format_literal ''clip'' = Some ''clip''" by blast
  have written: "\<exists>k. image_writes (new_events clip_state
              (snd (extract_frames_from_video demo_world (YStr ''out'') (YInt 2)
                      ''vids/clip.mp4'' clip_state)))
            = map (\<lambda>i. os_path_join ''out'' (''clip'' @ ''-'' @ format_05d i @ ''.png'')) [0..<k]"
    using names unfolding literal by simp
  have "(99999::nat) < 100000" by simp
  with names have five: "five_digit_frame_name ''clip'' (''clip'' @ ''-'' @ format_05d 99999 @ ''.png'')"
    by blast
  have name2: "''a{b'' = fst (os_path_splitext (os_path_basename ''vids/a{b.mp4''))"
    by (simp add: brace_video_name)
  have none: "format_literal ''a{b'' = None" by simp
  note names2 = frame_file_names [of demo_world "''out''" "YInt 2" "''vids/a{b.mp4''" brace_state _ _
      "''a{b''", OF prod.collapse [symmetric] name2]
  have unwritten: "image_writes (new_events brace_state
              (snd (extract_frames_from_video demo_world (YStr ''out'') (YInt 2)
                      ''vids/a{b.mp4'' brace_state))) = []"
    using names2 unfolding none by simp
  show ?thesis
    by (intro conjI name plain written five name2 none unwritten)
qed

text \<open>
  The claim as stated fails in two ways. For a video with more than 100000 sampled frames
  the image with index 100000 is written as \<open>clip-100000.png\<close>, which has six digits.
  For the video \<open>a{{b}}.mp4\<close> the images are written as \<open>a{b}-00000.png\<close> and
  \<open>a{b}-00001.png\<close>, which do not start with the base name \<open>a{{b}}\<close> of the video.
\<close>

lemma doubled_brace_run:
  "image_writes (new_events doubled_brace_state
     (snd (extract_frames_from_video demo_world (YStr ''out'') (YInt 2)
             ''vids/a{{b}}.mp4'' doubled_brace_state)))
     = [''out/a{b}-00000.png'', ''out/a{b}-00001.png'']"
  by code_simp

lemma doubled_brace_video_name:
  "fst (os_path_splitext (os_path_basename ''vids/a{{b}}.mp4'')) = ''a{{b}}''"
  by code_simp

theorem frame_file_names_counterexample:
  "''out/clip-100000.png''
     \<in> set (image_writes (new_events clip_state
              (snd (extract_frames_from_video long_world (YStr ''out'') (YInt 1)
                      ''vids/clip.mp4'' clip_state))))
   \<and> \<not> five_digit_frame_name ''clip'' ''clip-100000.png''
   \<and> fst (os_path_splitext (os_path_basename ''vids/a{{b}}.mp4'')) = ''a{{b}}''
   \<and> image_writes (new_events doubled_brace_state
        (snd (extract_frames_from_video demo_world (YStr ''out'') (YInt 2)
                ''vids/a{{b}}.mp4'' doubled_brace_state)))
       = [''out/a{b}-00000.png'', ''out/a{b}-00001.png'']
   \<and> \<not> five_digit_frame_name ''a{{b}}'' ''a{b}-00000.png''
   \<and> \<not> five_digit_frame_name ''a{{b}}'' ''a{b}-00001.png''"
proof -
  have enter: "ImageSink_enter long_world (YStr ''out'') (''clip'' @ ''-{:05d}.png'') clip_state
      = (Inr \<lparr>target_dir_path = YStr ''out'', image_name_pattern = ''clip-{:05d}.png'',
               image_count = 0\<rparr>, clip_state)"
    by (simp add: ImageSink_enter_def os_path_exists_def path_exists_def clip_state_def
          andthen_def succeed_def)
  have gen: "sv_get_video_frames_generator long_world ''vids/clip.mp4'' (YInt 1) clip_state
      = (Inr (frames_every (nat (1 - 1)) (replicate 100001 ''frame''), None), clip_state)"
    by (simp add: sv_get_video_frames_generator_def clip_state_def long_world_def)
  have "image_writes (new_events clip_state
          (snd (extract_frames_from_video long_world (YStr ''out'') (YInt 1)
                  ''vids/clip.mp4'' clip_state)))
      = map (\<lambda>i. os_path_join ''out'' (frame_file_name ''clip'' i))
          [0..<length (fst (frames_every (nat (1 - 1)) (replicate 100001 ''frame''), None :: error option))]"
    by (rule extract_frames_from_video_writes_exact [OF prod.collapse [symmetric] _ _ enter gen])
       (simp_all add: clip_video_name)
  moreover have "length (frames_every (nat (1 - 1)) (replicate 100001 ''frame'')) = 100001"
    by (simp add: length_frames_every)
  moreover have "os_path_join ''out'' (frame_file_name ''clip'' 100000) = ''out/clip-100000.png''"
    by (simp add: os_path_join_def frame_file_name_def format_05d_100000)
  moreover have "(100000::nat) \<in> set [0..<100001]" by simp
  ultimately have "''out/clip-100000.png''
     \<in> set (image_writes (new_events clip_state
              (snd (extract_frames_from_video long_world (YStr ''out'') (YInt 1)
                      ''vids/clip.mp4'' clip_state))))"
    by (metis (no_types, lifting) fst_conv image_eqI set_map)
  moreover have "\<not> five_digit_frame_name ''clip'' ''clip-100000.png''"
    by (simp add: five_digit_frame_name_def)
  moreover have "\<not> five_digit_frame_name ''a{{b}}'' ''a{b}-00000.png''"
    "\<not> five_digit_frame_name ''a{{b}}'' ''a{b}-00001.png''"
    by (simp_all add: five_digit_frame_name_def)
  ultimately show ?thesis
    using doubled_brace_run doubled_brace_video_name by simp
qed







text \<open>
  The claim as stated fails where an image cannot be written. With a directory at
  \<open>out/clip-00000.png\<close> the extractor returns without error for the video of three
  frames and stride 2, and has left one image file in the output directory, not
  \<open>ceil(3 / 2) = 2\<close>: \<open>cv2.imwrite\<close> reports the failed write by its return value,
  which is dropped.
\<close>

lemma demo_blocked_run:
  "extract_frames_from_video demo_world (YStr ''out'') (YInt 2) ''vids/clip.mp4'' blocked_state
     = (Inr (), \<lparr>disk = [(''vids/clip.mp4'', File ''VID''), (''out'', Dir),
                         (''out/clip-00000.png'', Dir), (''out/clip-00001.png'', File ''f2'')],
                 trace = [ImWrite ''out/clip-00000.png'', ImWrite ''out/clip-00001.png'']\<rparr>)"
  by code_simp

lemma demo_blocked_files:
  "files_inside ''out'' (disk (snd (extract_frames_from_video demo_world (YStr ''out'') (YInt 2)
                                      ''vids/clip.mp4'' blocked_state)))
     = [''out/clip-00001.png'']"
  by code_simp

theorem frame_count_counterexample:
  "extract_frames_from_video demo_world (YStr ''out'') (YInt 2) ''vids/clip.mp4'' blocked_state
     = (Inr (), \<lparr>disk = [(''vids/clip.mp4'', File ''VID''), (''out'', Dir),
                         (''out/clip-00000.png'', Dir), (''out/clip-00001.png'', File ''f2'')],
                 trace = [ImWrite ''out/clip-00000.png'', ImWrite ''out/clip-00001.png'']\<rparr>)
   \<and> map_of (disk blocked_state) ''vids/clip.mp4'' = Some (File ''VID'')
   \<and> cv2_decode demo_world ''VID'' = Some [''f0'', ''f1'', ''f2'']
   \<and> nat \<lceil>real (length [''f0'', ''f1'', ''f2'']) / real_of_int 2\<rceil> = 2
   \<and> files_inside ''out'' (disk blocked_state) = []
   \<and> files_inside ''out'' (disk (snd (extract_frames_from_video demo_world (YStr ''out'') (YInt 2)
                                          ''vids/clip.mp4'' blocked_state)))
       = [''out/clip-00001.png'']"
proof -
  have "nat \<lceil>real (length [''f0'', ''f1'', ''f2'']) / real_of_int 2\<rceil> = 2"
    by (simp add: ceiling_stride)
  moreover have "files_inside ''out'' (disk blocked_state) = []"
    by code_simp
  moreover have "map_of (disk blocked_state) ''vids/clip.mp4'' = Some (File ''VID'')"
    by (simp add: blocked_state_def)
  moreover have "cv2_decode demo_world ''VID'' = Some [''f0'', ''f1'', ''f2'']"
    by (simp add: demo_world_def)
  ultimately show ?thesis
    using demo_blocked_run demo_blocked_files by simp
qed

section \<open>The orchestrator and the auto-labeler\<close>

lemma demo_image_main: "fst (main demo_world ''config.yaml'' image_state) = Inr ()"
  by code_simp

lemma demo_video_load:
  "fst (load_config demo_world ''config.yaml''
          (video_state\<lparr>trace := trace video_state @ [Enter Fn_main]\<rparr>))
     = Inr demo_video_config"
  by code_simp

lemma demo_video_router:
  "fst (process_dataset demo_world (YStr ''video'') demo_video_config
          (snd (load_config demo_world ''config.yaml''
                  (video_state\<lparr>trace := trace video_state @ [Enter Fn_main]\<rparr>))))
     = Inr ()"
  by code_simp

lemma demo_image_load:
  "fst (load_config demo_world ''config.yaml''
          (image_state\<lparr>trace := trace image_state @ [Enter Fn_main]\<rparr>))
     = Inr demo_image_config"
  by code_simp

lemma demo_image_label:
  "Label (YMap [(''a person'', YStr ''person'')]) (YStr ''imgs'') (YStr ''out'')
     \<in> set (new_events image_state (snd (main demo_world ''config.yaml'' image_state)))"
  by code_simp

lemma demo_video_omits: "omits_image_dir demo_video_config"
  by code_simp

lemma demo_video_input_type:
  "subscripts demo_video_config [''data'', ''input_type''] = Inr (YStr ''video'')"
  by code_simp

text \<open>
  Claim C6. Every call into the labeling library that a run of the orchestrator makes
  (constructing the ontology, constructing the model, labeling) carries exactly the value
  of \<open>config['ontology']\<close> of the configuration that was loaded, and a run that
  completes has constructed the ontology from that value.
\<close>

theorem ontology_passed_unmodified:
  assumes run: "main w config_path s = (r, s9)"
  shows "(\<forall>ev \<in> set (new_events s s9). is_labeling ev \<longrightarrow>
            (\<exists>config s1 m i d.
                load_config w config_path (s\<lparr>trace := trace s @ [Enter Fn_main]\<rparr>) = (Inr config, s1)
              \<and> py_getitem config ''ontology'' = Inr m
              \<and> (ev = NewCaptionOntology m \<or> ev = NewGroundedSAM m \<or> ev = Label m i d)))
       \<and> (r = Inr () \<longrightarrow>
            (\<exists>config s1 m.
                load_config w config_path (s\<lparr>trace := trace s @ [Enter Fn_main]\<rparr>) = (Inr config, s1)
              \<and> py_getitem config ''ontology'' = Inr m
              \<and> NewCaptionOntology m \<in> set (new_events s s9)))"
proof (intro conjI ballI impI)
  fix ev
  assume ev: "ev \<in> set (new_events s s9)" "is_labeling ev"
  from main_events [OF run]
  show "\<exists>config s1 m i d.
          load_config w config_path (s\<lparr>trace := trace s @ [Enter Fn_main]\<rparr>) = (Inr config, s1)
        \<and> py_getitem config ''ontology'' = Inr m
        \<and> (ev = NewCaptionOntology m \<or> ev = NewGroundedSAM m \<or> ev = Label m i d)"
  proof
    assume "(\<exists>e. r = Inl e) \<and> adds_only (\<lambda>ev. is_marker ev \<or> is_output ev) s s9"
    then have "adds_only (\<lambda>ev. is_marker ev \<or> is_output ev) s s9" by simp
    then have "is_marker ev \<or> is_output ev" using ev(1) by (rule adds_only_new_events)
    with ev(2) show ?thesis by (simp add: is_labeling_def)
  next
    assume "\<exists>config s1 m i d.
        load_config w config_path (s\<lparr>trace := trace s @ [Enter Fn_main]\<rparr>) = (Inr config, s1)
      \<and> py_getitem config ''ontology'' = Inr m
      \<and> subscripts config [''data'', ''image'', ''image_dir''] = Inr i
      \<and> subscripts config [''data'', ''dataset_dir''] = Inr d
      \<and> adds_only (\<lambda>ev. is_marker ev \<or> is_output ev \<or> labeling_with m i d ev) s s9
      \<and> NewCaptionOntology m \<in> set (new_events s s9)"
    then obtain config s1 m i d where
      found: "load_config w config_path (s\<lparr>trace := trace s @ [Enter Fn_main]\<rparr>) = (Inr config, s1)"
        "py_getitem config ''ontology'' = Inr m"
      and only: "adds_only (\<lambda>ev. is_marker ev \<or> is_output ev \<or> labeling_with m i d ev) s s9"
      by blast
    from only ev(1) have "is_marker ev \<or> is_output ev \<or> labeling_with m i d ev"
      by (rule adds_only_new_events)
    with ev(2) have "labeling_with m i d ev" by (simp add: is_labeling_def)
    with found show ?thesis unfolding labeling_with_def by blast
  qed
next
  assume "r = Inr ()"
  with main_events [OF run] show "\<exists>config s1 m.
      load_config w config_path (s\<lparr>trace := trace s @ [Enter Fn_main]\<rparr>) = (Inr config, s1)
    \<and> py_getitem config ''ontology'' = Inr m
    \<and> NewCaptionOntology m \<in> set (new_events s s9)"
    by blast
qed

theorem ontology_passed_unmodified_witness:
  "main demo_world ''config.yaml'' image_state
     = (Inr (), snd (main demo_world ''config.yaml'' image_state))
   \<and> (\<exists>config s1 m.
         load_config demo_world ''config.yaml''
           (image_state\<lparr>trace := trace image_state @ [Enter Fn_main]\<rparr>) = (Inr config, s1)
       \<and> py_getitem config ''ontology'' = Inr m
       \<and> NewCaptionOntology m
            \<in> set (new_events image_state (snd (main demo_world ''config.yaml'' image_state))))
   \<and> Label (YMap [(''a person'', YStr ''person'')]) (YStr ''imgs'') (YStr ''out'')
        \<in> set (new_events image_state (snd (main demo_world ''config.yaml'' image_state)))
   \<and> is_labeling (Label (YMap [(''a person'', YStr ''person'')]) (YStr ''imgs'') (YStr ''out''))
   \<and> (\<exists>config s1.
         load_config demo_world ''config.yaml''
           (image_state\<lparr>trace := trace image_state @ [Enter Fn_main]\<rparr>) = (Inr config, s1)
       \<and> py_getitem config ''ontology'' = Inr (YMap [(''a person'', YStr ''person'')]))"
proof -
  have run: "main demo_world ''config.yaml'' image_state
     = (Inr (), snd (main demo_world ''config.yaml'' image_state))"
    using demo_image_main by (simp add: prod_eq_iff)
  have labeling: "is_labeling (Label (YMap [(''a person'', YStr ''person'')]) (YStr ''imgs'')
      (YStr ''out''))"
    by (simp add: is_labeling_def is_marker_def is_output_def)
  note claim = ontology_passed_unmodified [OF run]
  from claim have completed: "\<exists>config s1 m.
         load_config demo_world ''config.yaml''
           (image_state\<lparr>trace := trace image_state @ [Enter Fn_main]\<rparr>) = (Inr config, s1)
       \<and> py_getitem config ''ontology'' = Inr m
       \<and> NewCaptionOntology m
            \<in> set (new_events image_state (snd (main demo_world ''config.yaml'' image_state)))"
    by blast
  from claim demo_image_label labeling have "\<exists>config s1 m i d.
         load_config demo_world ''config.yaml''
           (image_state\<lparr>trace := trace image_state @ [Enter Fn_main]\<rparr>) = (Inr config, s1)
       \<and> py_getitem config ''ontology'' = Inr m
       \<and> (Label (YMap [(''a person'', YStr ''person'')]) (YStr ''imgs'') (YStr ''out'')
             = NewCaptionOntology m
          \<or> Label (YMap [(''a person'', YStr ''person'')]) (YStr ''imgs'') (YStr ''out'')
             = NewGroundedSAM m
          \<or> Label (YMap [(''a person'', YStr ''person'')]) (YStr ''imgs'') (YStr ''out'')
             = Label m i d)"
    by blast
  then have "\<exists>config s1.
         load_config demo_world ''config.yaml''
           (image_state\<lparr>trace := trace image_state @ [Enter Fn_main]\<rparr>) = (Inr config, s1)
       \<and> py_getitem config ''ontology'' = Inr (YMap [(''a person'', YStr ''person'')])"
    by auto
  with run completed demo_image_label labeling show ?thesis by blast
qed

text \<open>
  Claim C7. In every run of the orchestrator the calls happen in one fixed order: the
  configuration is loaded and \<open>load_config\<close> has returned before the router is
  entered; the router is entered once; inside the router acquisition has returned before
  extraction is entered; and the auto-labeler is entered only after the router has
  returned. A run that fails stops somewhere along this order; a run that completes has
  gone through all of it.
\<close>

theorem linear_control_flow:
  assumes run: "main w config_path s = (r, s9)"
  shows "(prefix (calls (new_events s s9)) (call_order True)
            \<or> prefix (calls (new_events s s9)) (call_order False))
       \<and> (r = Inr () \<longrightarrow> calls (new_events s s9) = call_order True
                          \<or> calls (new_events s s9) = call_order False)"
proof -
  from emits_main [of w config_path] obtain evs where
    "trace (snd (main w config_path s)) = trace s @ evs"
    "\<exists>a \<in> {call_order True, call_order False}. prefix (calls evs) a"
    "case fst (main w config_path s) of Inl e \<Rightarrow> True
       | Inr x \<Rightarrow> calls evs \<in> {call_order True, call_order False}"
    unfolding emits_calls_def by blast
  then show ?thesis using run by (auto simp: new_events_def)
qed

theorem linear_control_flow_witness:
  "main demo_world ''config.yaml'' image_state
     = (Inr (), snd (main demo_world ''config.yaml'' image_state))
   \<and> (calls (new_events image_state (snd (main demo_world ''config.yaml'' image_state)))
         = call_order True
       \<or> calls (new_events image_state (snd (main demo_world ''config.yaml'' image_state)))
         = call_order False)"
proof -
  have run: "main demo_world ''config.yaml'' image_state
     = (Inr (), snd (main demo_world ''config.yaml'' image_state))"
    using demo_image_main by (simp add: prod_eq_iff)
  from linear_control_flow [OF run] run show ?thesis by blast
qed

text \<open>
  Claim C9. Without a \<open>--config\<close> argument the configuration path is
  \<open>config.yaml\<close>. The script exits with status 0 exactly when \<open>main\<close> returns
  and with status 1 otherwise; when it exits with status 0, the last thing \<open>main\<close>
  did before returning was to print "Dataset construction complete.".
\<close>

theorem script_completion:
  shows "parse_args None = ''config.yaml''
       \<and> script w None s = script w (Some ''config.yaml'') s
       \<and> (fst (script w config_flag s) = 0 \<or> fst (script w config_flag s) = 1)
       \<and> (fst (script w config_flag s) = 0
            \<longleftrightarrow> fst (main w (parse_args config_flag) s) = Inr ())
       \<and> (fst (script w config_flag s) = 0 \<longrightarrow>
            (\<exists>evs. new_events s (snd (script w config_flag s))
                     = evs @ [Print [Lit ''Dataset construction complete.''], Leave Fn_main]))"
proof -
  obtain r s9 where run: "main w (parse_args config_flag) s = (r, s9)"
    by (cases "main w (parse_args config_flag) s")
  have status: "fst (script w config_flag s) = (case r of Inl e \<Rightarrow> 1 | Inr u \<Rightarrow> 0)"
    and final: "snd (script w config_flag s) = s9"
    using run by (simp_all add: script_def split: sum.splits)
  have ending: "\<exists>evs. new_events s s9
      = evs @ [Print [Lit ''Dataset construction complete.''], Leave Fn_main]" if "r = Inr ()"
    using run
  proof (cases rule: main_cases)
    case (completed config s1 input_type s2 m i d s3)
    have "adds_only (\<lambda>ev. True) s (s\<lparr>trace := trace s @ [Enter Fn_main]\<rparr>)"
      by (intro adds_only_append) simp
    moreover have "adds_only (\<lambda>ev. True) (s\<lparr>trace := trace s @ [Enter Fn_main]\<rparr>) s1"
      using preservesD [OF adds_load_config [of "\<lambda>ev. True"] completed(1)] by simp
    moreover have "adds_only (\<lambda>ev. True) s1 s2"
      using preservesD [OF adds_process_dataset [of "\<lambda>ev. True"] completed(3)] by simp
    moreover have "adds_only (\<lambda>ev. True) s2 s3"
      using preservesD [OF adds_auto_label_images [of _ _ _ "\<lambda>ev. True"] completed(7)] by simp
    ultimately have "adds_only (\<lambda>ev. True) s s3"
      by (meson adds_only_trans)
    then obtain evs where "trace s3 = trace s @ evs" by (auto simp: adds_only_def)
    then have "new_events s s9
        = evs @ [Print [Lit ''Dataset construction complete.''], Leave Fn_main]"
      by (simp add: completed(8) new_events_def)
    then show ?thesis by blast
  qed (use that in simp_all)
  have result: "fst (main w (parse_args config_flag) s) = r" by (simp add: run)
  have "parse_args None = ''config.yaml''" by (simp add: parse_args_def)
  moreover have "script w None s = script w (Some ''config.yaml'') s"
    by (simp add: script_def parse_args_def)
  moreover have "fst (script w config_flag s) = 0 \<or> fst (script w config_flag s) = 1"
    unfolding status by (cases r) simp_all
  moreover have "fst (script w config_flag s) = 0
      \<longleftrightarrow> fst (main w (parse_args config_flag) s) = Inr ()"
    unfolding status result by (cases r) simp_all
  moreover have "fst (script w config_flag s) = 0 \<longrightarrow>
      (\<exists>evs. new_events s (snd (script w config_flag s))
               = evs @ [Print [Lit ''Dataset construction complete.''], Leave Fn_main])"
    unfolding status final using ending by (cases r) simp_all
  ultimately show ?thesis by (intro conjI)
qed

theorem script_completion_witness:
  "fst (script demo_world None image_state) = 0
   \<and> (\<exists>evs. new_events image_state (snd (script demo_world None image_state))
              = evs @ [Print [Lit ''Dataset construction complete.''], Leave Fn_main])"
proof -
  have "fst (main demo_world (parse_args None) image_state) = Inr ()"
    using demo_image_main by (simp add: parse_args_def)
  with script_completion [of demo_world image_state None] show ?thesis by blast
qed

text \<open>
  Claim C10. The orchestrator hands \<open>config['data']['image']['image_dir']\<close> to the
  auto-labeler as the input folder whatever the input type is. For a video configuration
  without that key, a run whose router succeeds fails afterwards with KeyError: by then
  acquisition and extraction have returned, the disk is as the router left it, and the
  labeling library has not been called.
\<close>

theorem labeling_reads_image_dir:
  assumes run: "main w config_path s = (r, s9)"
    and load: "load_config w config_path (s\<lparr>trace := trace s @ [Enter Fn_main]\<rparr>) = (Inr config, s1)"
  shows "(\<forall>m i d. Label m i d \<in> set (new_events s s9) \<longrightarrow>
            subscripts config [''data'', ''image'', ''image_dir''] = Inr i
          \<and> subscripts config [''data'', ''dataset_dir''] = Inr d)
       \<and> (subscripts config [''data'', ''input_type''] = Inr (YStr ''video'')
          \<and> process_dataset w (YStr ''video'') config s1 = (Inr (), s2)
          \<and> omits_image_dir config \<longrightarrow>
            (\<exists>k. r = Inl (KeyError k)) \<and> s9 = s2
          \<and> Leave Fn_download_and_extract_videos \<in> set (new_events s s9)
          \<and> Leave Fn_extract_frames_from_videos \<in> set (new_events s s9)
          \<and> \<not> (\<exists>ev \<in> set (new_events s s9). is_labeling ev))"
proof (rule conjI)
  show "\<forall>m i d. Label m i d \<in> set (new_events s s9) \<longrightarrow>
            subscripts config [''data'', ''image'', ''image_dir''] = Inr i
          \<and> subscripts config [''data'', ''dataset_dir''] = Inr d"
  proof (intro allI impI)
  fix m i d
  assume label: "Label m i d \<in> set (new_events s s9)"
  have labeling: "is_labeling (Label m i d)"
    by (simp add: is_labeling_def is_marker_def is_output_def)
  from main_events [OF run]
  show "subscripts config [''data'', ''image'', ''image_dir''] = Inr i
      \<and> subscripts config [''data'', ''dataset_dir''] = Inr d"
  proof
    assume "(\<exists>e. r = Inl e) \<and> adds_only (\<lambda>ev. is_marker ev \<or> is_output ev) s s9"
    then have "adds_only (\<lambda>ev. is_marker ev \<or> is_output ev) s s9" by simp
    then have "is_marker (Label m i d) \<or> is_output (Label m i d)"
      using label by (rule adds_only_new_events)
    then show ?thesis by (simp add: is_marker_def is_output_def)
  next
    assume "\<exists>config s1 m i d.
        load_config w config_path (s\<lparr>trace := trace s @ [Enter Fn_main]\<rparr>) = (Inr config, s1)
      \<and> py_getitem config ''ontology'' = Inr m
      \<and> subscripts config [''data'', ''image'', ''image_dir''] = Inr i
      \<and> subscripts config [''data'', ''dataset_dir''] = Inr d
      \<and> adds_only (\<lambda>ev. is_marker ev \<or> is_output ev \<or> labeling_with m i d ev) s s9
      \<and> NewCaptionOntology m \<in> set (new_events s s9)"
    then obtain m0 i0 d0 where
      lookups: "subscripts config [''data'', ''image'', ''image_dir''] = Inr i0"
        "subscripts config [''data'', ''dataset_dir''] = Inr d0"
      and only: "adds_only (\<lambda>ev. is_marker ev \<or> is_output ev \<or> labeling_with m0 i0 d0 ev) s s9"
      using load by auto
    from only label have "is_marker (Label m i d) \<or> is_output (Label m i d)
        \<or> labeling_with m0 i0 d0 (Label m i d)"
      by (rule adds_only_new_events)
    then have "i = i0 \<and> d = d0"
      by (simp add: is_marker_def is_output_def labeling_with_def)
    with lookups show ?thesis by simp
  qed
  qed
next
  show "subscripts config [''data'', ''input_type''] = Inr (YStr ''video'')
          \<and> process_dataset w (YStr ''video'') config s1 = (Inr (), s2)
          \<and> omits_image_dir config \<longrightarrow>
            (\<exists>k. r = Inl (KeyError k)) \<and> s9 = s2
          \<and> Leave Fn_download_and_extract_videos \<in> set (new_events s s9)
          \<and> Leave Fn_extract_frames_from_videos \<in> set (new_events s s9)
          \<and> \<not> (\<exists>ev \<in> set (new_events s s9). is_labeling ev)"
  proof (rule impI)
  assume video: "subscripts config [''data'', ''input_type''] = Inr (YStr ''video'')
          \<and> process_dataset w (YStr ''video'') config s1 = (Inr (), s2)
          \<and> omits_image_dir config"
  then obtain k where missing: "subscripts config [''data'', ''image'', ''image_dir''] = Inl (KeyError k)"
    by (auto simp: omits_image_dir_def split: sum.splits error.splits)
  from video have it: "subscripts config [''data'', ''input_type''] = Inr (YStr ''video'')"
    and router: "process_dataset w (YStr ''video'') config s1 = (Inr (), s2)" by simp_all
  from it obtain data where data: "py_getitem config ''data'' = Inr data"
    by (auto split: sum.splits)
  from run have outcome: "(\<exists>k. r = Inl (KeyError k)) \<and> s9 = s2"
  proof (cases rule: main_cases)
    case (lookup_failed config' s1' input_type e)
    with load it router have same: "s9 = s2" by simp
    from lookup_failed(1,4) load missing have "py_getitem config ''ontology'' = Inl e \<or> e = KeyError k"
      by auto
    then have "\<exists>k. e = KeyError k" using py_getitem_KeyError [OF data] by blast
    with same lookup_failed(5) show ?thesis by simp
  qed (use load it router missing in auto)
  then have part1: "\<exists>k. r = Inl (KeyError k)" "s9 = s2" by simp_all
  have grown: "adds_only (\<lambda>ev. True) s s1"
  proof (rule adds_only_after)
    show "adds_only (\<lambda>ev. True) (s\<lparr>trace := trace s @ [Enter Fn_main]\<rparr>) s1"
      using preservesD [OF adds_load_config [of "\<lambda>ev. True"] load] by simp
  qed simp
  note emitted = emits_process_dataset [of w "YStr ''video''" config, unfolded emits_calls_def,
      THEN spec, of s1]
  then obtain evs where
    evs: "trace s2 = trace s1 @ evs" "calls evs = router_calls True"
    using router by auto
  have inside: "set (calls evs) \<subseteq> set (new_events s s9)"
    using grown evs(1) outcome by (auto simp: adds_only_def new_events_def calls_def)
  then have part2: "Leave Fn_download_and_extract_videos \<in> set (new_events s s9)"
    "Leave Fn_extract_frames_from_videos \<in> set (new_events s s9)"
    unfolding evs(2) by (auto simp: router_calls_def)
  have routed: "adds_only (\<lambda>ev. is_marker ev \<or> is_output ev) s1 s2"
    using preservesD [OF adds_process_dataset [of "\<lambda>ev. is_marker ev \<or> is_output ev"] router]
    by simp
  have loaded: "adds_only (\<lambda>ev. is_marker ev \<or> is_output ev) s s1"
  proof (rule adds_only_after)
    show "adds_only (\<lambda>ev. is_marker ev \<or> is_output ev)
        (s\<lparr>trace := trace s @ [Enter Fn_main]\<rparr>) s1"
      using preservesD [OF adds_load_config [of "\<lambda>ev. is_marker ev \<or> is_output ev"] load]
      by simp
  qed (simp add: is_marker_def)
  have "adds_only (\<lambda>ev. is_marker ev \<or> is_output ev) s s9"
    using adds_only_trans [OF loaded routed] outcome by simp
  then have "\<not> (\<exists>ev \<in> set (new_events s s9). is_labeling ev)"
    by (auto simp: is_labeling_def dest: adds_only_new_events)
  with part1 part2 show "(\<exists>k. r = Inl (KeyError k)) \<and> s9 = s2
          \<and> Leave Fn_download_and_extract_videos \<in> set (new_events s s9)
          \<and> Leave Fn_extract_frames_from_videos \<in> set (new_events s s9)
          \<and> \<not> (\<exists>ev \<in> set (new_events s s9). is_labeling ev)"
    by simp
  qed
qed

theorem labeling_reads_image_dir_witness:
  "Label (YMap [(''a person'', YStr ''person'')]) (YStr ''imgs'') (YStr ''out'')
     \<in> set (new_events image_state (snd (main demo_world ''config.yaml'' image_state)))
   \<and> subscripts demo_image_config [''data'', ''image'', ''image_dir''] = Inr (YStr ''imgs'')
   \<and> subscripts demo_image_config [''data'', ''dataset_dir''] = Inr (YStr ''out'')
   \<and> subscripts demo_video_config [''data'', ''input_type''] = Inr (YStr ''video'')
   \<and> fst (process_dataset demo_world (YStr ''video'') demo_video_config
            (snd (load_config demo_world ''config.yaml''
                    (video_state\<lparr>trace := trace video_state @ [Enter Fn_main]\<rparr>)))) = Inr ()
   \<and> omits_image_dir demo_video_config
   \<and> (\<exists>k. fst (main demo_world ''config.yaml'' video_state) = Inl (KeyError k))
   \<and> Leave Fn_extract_frames_from_videos
        \<in> set (new_events video_state (snd (main demo_world ''config.yaml'' video_state)))"
proof -
  let ?i0 = "image_state\<lparr>trace := trace image_state @ [Enter Fn_main]\<rparr>"
  have image_load: "load_config demo_world ''config.yaml'' ?i0
      = (Inr demo_image_config, snd (load_config demo_world ''config.yaml'' ?i0))"
    using demo_image_load by (simp add: prod_eq_iff)
  note image_claim = labeling_reads_image_dir [OF prod.collapse [symmetric] image_load]
  from image_claim demo_image_label
  have image: "subscripts demo_image_config [''data'', ''image'', ''image_dir''] = Inr (YStr ''imgs'')
      \<and> subscripts demo_image_config [''data'', ''dataset_dir''] = Inr (YStr ''out'')"
    by blast
  let ?s0 = "video_state\<lparr>trace := trace video_state @ [Enter Fn_main]\<rparr>"
  let ?s1 = "snd (load_config demo_world ''config.yaml'' ?s0)"
  let ?s2 = "snd (process_dataset demo_world (YStr ''video'') demo_video_config ?s1)"
  have load: "load_config demo_world ''config.yaml'' ?s0 = (Inr demo_video_config, ?s1)"
    using demo_video_load by (simp add: prod_eq_iff)
  have router: "process_dataset demo_world (YStr ''video'') demo_video_config ?s1 = (Inr (), ?s2)"
    using demo_video_router by (simp add: prod_eq_iff)
  note claim = labeling_reads_image_dir [OF prod.collapse [symmetric] load, of ?s2]
  from claim demo_video_input_type router demo_video_omits
  have "(\<exists>k. fst (main demo_world ''config.yaml'' video_state) = Inl (KeyError k))
      \<and> Leave Fn_extract_frames_from_videos
           \<in> set (new_events video_state (snd (main demo_world ''config.yaml'' video_state)))"
    by blast
  then show ?thesis
    using image demo_image_label demo_video_input_type demo_video_router demo_video_omits
    by simp
qed

end
